theory Spec2Isabelle
  imports Complex_Main
begin

section \<open>JavaScript values used by the tracker\<close>

text \<open>
  \<^verbatim>\<open>xs.slice(-n)\<close> for a positive \<open>n\<close>: the last \<open>n\<close> elements, or all of \<open>xs\<close> when it is
  shorter. The source only calls it with the literals 1000, 20 and 5.
\<close>

definition slice_last :: "nat \<Rightarrow> 'a list \<Rightarrow> 'a list" where
  "slice_last n xs = drop (length xs - n) xs"

text \<open>\<^verbatim>\<open>s.split(c)\<close> with a one-character separator; the empty string gives one empty piece.\<close>

fun js_split :: "char \<Rightarrow> string \<Rightarrow> string list" where
  "js_split c [] = [[]]"
| "js_split c (x # xs) =
     (if x = c then [] # js_split c xs
      else (case js_split c xs of
              [] \<Rightarrow> [[x]]
            | r # rs \<Rightarrow> (x # r) # rs))"

text \<open>\<^verbatim>\<open>xs.join(sep)\<close>.\<close>

fun js_join :: "string \<Rightarrow> string list \<Rightarrow> string" where
  "js_join sep [] = []"
| "js_join sep [x] = x"
| "js_join sep (x # y # ys) = x @ sep @ js_join sep (y # ys)"

text \<open>
  JavaScript numbers that come out of \<^verbatim>\<open>Number(...)\<close> or out of a destructuring are
  \<open>real option\<close>: \<open>None\<close> stands for \<^verbatim>\<open>NaN\<close> and for \<^verbatim>\<open>undefined\<close>, which behave alike under
  the arithmetic and the comparisons of the source (every comparison is false, every sum
  is \<^verbatim>\<open>NaN\<close>). Arithmetic is exact, as it is on the integer pixel and clock values the
  program handles.
\<close>

type_synonym jsnum = "real option"

definition js_add :: "jsnum \<Rightarrow> jsnum \<Rightarrow> jsnum" where
  "js_add a b = (case (a, b) of (Some x, Some y) \<Rightarrow> Some (x + y) | _ \<Rightarrow> None)"

definition js_sub :: "jsnum \<Rightarrow> jsnum \<Rightarrow> jsnum" where
  "js_sub a b = (case (a, b) of (Some x, Some y) \<Rightarrow> Some (x - y) | _ \<Rightarrow> None)"

definition js_abs :: "jsnum \<Rightarrow> jsnum" where
  "js_abs a = (case a of Some x \<Rightarrow> Some \<bar>x\<bar> | None \<Rightarrow> None)"

definition js_le :: "jsnum \<Rightarrow> jsnum \<Rightarrow> bool" where
  "js_le a b = (case (a, b) of (Some x, Some y) \<Rightarrow> x \<le> y | _ \<Rightarrow> False)"

definition js_ge :: "jsnum \<Rightarrow> jsnum \<Rightarrow> bool" where
  "js_ge a b = js_le b a"

text \<open>\<^verbatim>\<open>a === b\<close> where the left side is a number (possibly \<^verbatim>\<open>NaN\<close>).\<close>

definition js_eq :: "jsnum \<Rightarrow> jsnum \<Rightarrow> bool" where
  "js_eq a b = (case (a, b) of (Some x, Some y) \<Rightarrow> x = y | _ \<Rightarrow> False)"

text \<open>Element \<open>i\<close> of a destructured array: \<^verbatim>\<open>undefined\<close> past the end.\<close>

definition elem :: "jsnum list \<Rightarrow> nat \<Rightarrow> jsnum" where
  "elem xs i = (if i < length xs then xs ! i else None)"

text \<open>
  A \<^verbatim>\<open>Date\<close> as the trigger code reads it: the local wall-clock hour and minute, or an
  invalid date, whose getters return \<^verbatim>\<open>NaN\<close>.
\<close>

datatype date = Date nat nat | InvalidDate

fun getHours :: "date \<Rightarrow> jsnum" where
  "getHours (Date h m) = Some (real h)"
| "getHours InvalidDate = None"

fun getMinutes :: "date \<Rightarrow> jsnum" where
  "getMinutes (Date h m) = Some (real m)"
| "getMinutes InvalidDate = None"

text \<open>One reading of the clock: \<^verbatim>\<open>Date.now()\<close> and \<^verbatim>\<open>new Date()\<close>.\<close>

record clock =
  dateNow :: nat
  newDate :: date

text \<open>Truthiness of an optional string field: present and not empty.\<close>

fun truthy :: "string option \<Rightarrow> bool" where
  "truthy None = False"
| "truthy (Some s) = (s \<noteq> [])"

section \<open>Activities, suggestions and tasks\<close>

record textData =
  applicationName :: "string option"
  windowTitle :: "string option"

record mousePosition =
  mouseX :: real
  mouseY :: real

text \<open>
  An activity is an untyped object in the source. The record has the fields the
  automation code reads; \<open>atype\<close> is the \<^verbatim>\<open>type\<close> field, the empty string standing for a
  missing (falsy) one.
\<close>

record activity =
  atype :: string
  atimestamp :: "date option"
  atext :: "string option"
  atextData :: "textData option"
  aname :: "string option"
  amousePosition :: "mousePosition option"
  aisSpecialKey :: bool
  akey :: "string option"
  ax :: jsnum
  ay :: jsnum

record trigger =
  trig_type :: string
  trig_value :: string

record task =
  task_id :: nat
  task_name :: string
  task_description :: string
  task_steps :: "string list"
  task_triggers :: "trigger list"
  executionCount :: nat
  isActive :: bool

record metadata =
  mtype :: string
  subtype :: string

record suggestion =
  sug_id :: nat
  sug_title :: string
  sug_description :: string
  sug_confidence :: real
  sug_activities :: "activity list"
  sug_createdAt :: date
  sug_metadata :: metadata

text \<open>The argument object of \<^verbatim>\<open>createSuggestion\<close>.\<close>

record suggestionData =
  d_title :: string
  d_description :: string
  d_confidence :: real
  d_activities :: "activity list"
  d_type :: string
  d_subtype :: string

text \<open>What the manager hands to its listeners.\<close>

datatype notification =
    SuggestionEvent suggestion
  | ExecutionEvent nat bool string

text \<open>
  The client-side \<^verbatim>\<open>AutomationManager\<close>. \<open>emitted\<close> records the calls of
  \<^verbatim>\<open>notifyListeners\<close> in order (a listener cannot make that call fail, see
  \<open>notifyListeners\<close> below), \<open>started\<close> the calls of \<^verbatim>\<open>executeTask\<close> made by
  \<^verbatim>\<open>checkTriggers\<close>, which does not await them.
\<close>

record manager =
  activityHistory :: "activity list"
  tasks :: "task list"
  suggestions :: "suggestion list"
  emitted :: "notification list"
  started :: "nat list"

definition historyMaxLength :: nat where
  "historyMaxLength = 1000"

definition initial_manager :: manager where
  "initial_manager =
     \<lparr>activityHistory = [], tasks = [], suggestions = [], emitted = [], started = []\<rparr>"

section \<open>The suggestion store\<close>

definition hasExistingSuggestion :: "manager \<Rightarrow> string \<Rightarrow> string \<Rightarrow> bool" where
  "hasExistingSuggestion m ty sub =
     list_ex (\<lambda>s. mtype (sug_metadata s) = ty \<and> subtype (sug_metadata s) = sub)
       (suggestions m)"

definition new_suggestion :: "clock \<Rightarrow> suggestionData \<Rightarrow> suggestion" where
  "new_suggestion c d =
     \<lparr>sug_id = dateNow c, sug_title = d_title d, sug_description = d_description d,
      sug_confidence = d_confidence d, sug_activities = d_activities d,
      sug_createdAt = newDate c,
      sug_metadata = \<lparr>mtype = d_type d, subtype = d_subtype d\<rparr>\<rparr>"

definition createSuggestion :: "clock \<Rightarrow> suggestionData \<Rightarrow> manager \<Rightarrow> manager" where
  "createSuggestion c d m =
     (let s = new_suggestion c d;
          pushed = suggestions m @ [s];
          limited = (if length pushed > 10 then tl pushed else pushed)
      in m\<lparr>suggestions := limited, emitted := emitted m @ [SuggestionEvent s]\<rparr>)"

section \<open>The pattern detectors\<close>

text \<open>
  \<^verbatim>\<open>typeCounts\<close> is an object keyed by the activity types; \<^verbatim>\<open>Object.entries\<close> lists its
  keys in the order of their first insertion, so it is an association list in that
  order. (Keys that look like array indices would be listed first; they belong to no
  branch of the detector.) An activity with a falsy type is skipped.
\<close>

fun countType :: "string \<Rightarrow> (string \<times> nat) list \<Rightarrow> (string \<times> nat) list" where
  "countType t [] = [(t, 1)]"
| "countType t ((k, n) # rest) =
     (if k = t then (k, n + 1) # rest else (k, n) # countType t rest)"

definition typeCounts :: "activity list \<Rightarrow> (string \<times> nat) list" where
  "typeCounts recentActivities =
     fold (\<lambda>a tc. if atype a = [] then tc else countType (atype a) tc) recentActivities []"

text \<open>The body of the loop over the entries of \<^verbatim>\<open>typeCounts\<close>.\<close>

definition repeatedEntry :: "clock \<Rightarrow> activity list \<Rightarrow> string \<times> nat \<Rightarrow> manager \<Rightarrow> manager" where
  "repeatedEntry c recentActivities entry m =
     (case entry of (ty, count) \<Rightarrow>
        if count \<ge> 3 then
          if hasExistingSuggestion m ''repeated_sequence'' ty then m
          else
            (let acts = filter (\<lambda>a. atype a = ty) recentActivities in
               if ty = ''keyboard'' \<and> list_ex (\<lambda>a. truthy (atext a)) acts then
                 createSuggestion c
                   \<lparr>d_title = ''Repeated Text Input'',
                    d_description = ''You've typed similar text multiple times. Would you like to create a template?'',
                    d_confidence = 0.7, d_activities = acts,
                    d_type = ''repeated_sequence'', d_subtype = ty\<rparr> m
               else if ty = ''mouse_click'' then
                 createSuggestion c
                   \<lparr>d_title = ''Repeated Clicks Detected'',
                    d_description = ''You've clicked in the same area multiple times. Want to automate this?'',
                    d_confidence = 0.6, d_activities = acts,
                    d_type = ''repeated_sequence'', d_subtype = ty\<rparr> m
               else m)
        else m)"

definition detectRepeatedSequence :: "clock \<Rightarrow> manager \<Rightarrow> manager" where
  "detectRepeatedSequence c m =
     (let recentActivities = slice_last 20 (activityHistory m)
      in fold (repeatedEntry c recentActivities) (typeCounts recentActivities) m)"

definition detectTimeBasedPatterns :: "manager \<Rightarrow> manager" where
  "detectTimeBasedPatterns m = m"

definition isAppActivity :: "activity \<Rightarrow> bool" where
  "isAppActivity a =
     (atype a = ''application'' \<or>
      (atype a = ''screen_capture'' \<and>
       truthy (case atextData a of None \<Rightarrow> None | Some td \<Rightarrow> applicationName td)))"

text \<open>
  \<^verbatim>\<open>activity.textData.applicationName\<close> is only read on a screen capture that passed the
  filter, so \<^verbatim>\<open>textData\<close> is present there.
\<close>

definition appName :: "activity \<Rightarrow> string option" where
  "appName a =
     (if atype a = ''application'' then aname a
      else (case atextData a of None \<Rightarrow> None | Some td \<Rightarrow> applicationName td))"

text \<open>
  The backward loop \<^verbatim>\<open>for (i = length - 1; i >= 0 && recentApps.length < 3; i--)\<close>, over
  the activities listed from the last one to the first.
\<close>

fun collectRecentApps :: "activity list \<Rightarrow> string list \<Rightarrow> string list" where
  "collectRecentApps [] recentApps = recentApps"
| "collectRecentApps (a # older) recentApps =
     (if length recentApps < 3 then
        collectRecentApps older
          (case appName a of
             None \<Rightarrow> recentApps
           | Some n \<Rightarrow> if n \<noteq> [] \<and> n \<notin> set recentApps then recentApps @ [n] else recentApps)
      else recentApps)"

definition detectApplicationPatterns :: "clock \<Rightarrow> manager \<Rightarrow> manager" where
  "detectApplicationPatterns c m =
     (let appActivities = filter isAppActivity (activityHistory m) in
        if length appActivities < 3 then m
        else
          (let recentApps = collectRecentApps (rev appActivities) [] in
             if length recentApps = 3 then
               (let sequenceKey = js_join '','' recentApps in
                  if hasExistingSuggestion m ''app_sequence'' sequenceKey then m
                  else
                    createSuggestion c
                      \<lparr>d_title = ''Application Sequence'',
                       d_description =
                         ''You often open '' @ js_join '', '' recentApps @ '' together. Create a workflow?'',
                       d_confidence = 0.65, d_activities = slice_last 5 appActivities,
                       d_type = ''app_sequence'', d_subtype = sequenceKey\<rparr> m)
             else m))"

definition detectPatterns :: "clock \<Rightarrow> manager \<Rightarrow> manager" where
  "detectPatterns c m =
     (if length (activityHistory m) < 10 then m
      else detectApplicationPatterns c (detectTimeBasedPatterns (detectRepeatedSequence c m)))"

section \<open>Trigger matching on the client\<close>

text \<open>
  \<^verbatim>\<open>trigger.value.split(sep).map(Number)\<close>. \<^verbatim>\<open>Number\<close> is the built-in conversion; it is
  a parameter \<open>toNumber\<close> of the model.
\<close>

definition parseNumbers :: "(string \<Rightarrow> jsnum) \<Rightarrow> char \<Rightarrow> string \<Rightarrow> jsnum list" where
  "parseNumbers toNumber sep v = map toNumber (js_split sep v)"

text \<open>
  One pass through the \<^verbatim>\<open>switch\<close> of \<^verbatim>\<open>checkTriggers\<close>: the value left in
  \<^verbatim>\<open>shouldTrigger\<close>. \<open>now\<close> is the \<^verbatim>\<open>new Date()\<close> of the time case.
\<close>

definition shouldTrigger :: "(string \<Rightarrow> jsnum) \<Rightarrow> date \<Rightarrow> activity \<Rightarrow> trigger \<Rightarrow> bool" where
  "shouldTrigger toNumber now a tr =
     (if trig_type tr = ''time'' then
        (let ns = parseNumbers toNumber CHR '':'' (trig_value tr);
             hours = elem ns 0; minutes = elem ns 1
         in js_eq (getHours now) hours \<and> js_eq (getMinutes now) minutes)
      else if trig_type tr = ''mouse'' then
        (atype a = ''screen_capture'' \<and>
         (case amousePosition a of
            None \<Rightarrow> False
          | Some p \<Rightarrow>
              (let ns = parseNumbers toNumber CHR '','' (trig_value tr);
                   targetX = elem ns 0; targetY = elem ns 1;
                   tolerance = Some 20
               in js_le (js_abs (js_sub (Some (mouseX p)) targetX)) tolerance \<and>
                  js_le (js_abs (js_sub (Some (mouseY p)) targetY)) tolerance)))
      else if trig_type tr = ''keyboard'' then
        (atype a = ''keyboard'' \<and> aisSpecialKey a \<and> akey a = Some (trig_value tr))
      else if trig_type tr = ''click'' then
        (atype a = ''mouse_click'' \<and>
         (let ns = parseNumbers toNumber CHR '','' (trig_value tr);
              x = elem ns 0; y = elem ns 1; width = elem ns 2; height = elem ns 3
          in js_ge (ax a) x \<and> js_le (ax a) (js_add x width) \<and>
             js_ge (ay a) y \<and> js_le (ay a) (js_add y height)))
      else False)"

text \<open>
  The loop over the triggers of one task: the ids passed to \<^verbatim>\<open>executeTask\<close>. The
  \<^verbatim>\<open>break\<close> after the call ends the loop.
\<close>

fun triggerLoop :: "(string \<Rightarrow> jsnum) \<Rightarrow> date \<Rightarrow> activity \<Rightarrow> task \<Rightarrow> trigger list \<Rightarrow> nat list" where
  "triggerLoop toNumber now a t [] = []"
| "triggerLoop toNumber now a t (tr # trs) =
     (if shouldTrigger toNumber now a tr then [task_id t]
      else triggerLoop toNumber now a t trs)"

fun checkTriggers :: "(string \<Rightarrow> jsnum) \<Rightarrow> date \<Rightarrow> activity \<Rightarrow> task list \<Rightarrow> nat list" where
  "checkTriggers toNumber now a [] = []"
| "checkTriggers toNumber now a (t # ts) =
     (if \<not> isActive t then checkTriggers toNumber now a ts
      else triggerLoop toNumber now a t (task_triggers t) @ checkTriggers toNumber now a ts)"

definition checkForPatterns :: "(string \<Rightarrow> jsnum) \<Rightarrow> clock \<Rightarrow> activity \<Rightarrow> manager \<Rightarrow> manager" where
  "checkForPatterns toNumber c a m =
     (let pushed = activityHistory m @ [a];
          trimmed = (if length pushed > historyMaxLength
                     then slice_last historyMaxLength pushed else pushed);
          m1 = detectPatterns c (m\<lparr>activityHistory := trimmed\<rparr>)
      in m1\<lparr>started := started m1 @ checkTriggers toNumber (newDate c) a (tasks m1)\<rparr>)"

text \<open>Feeding a sequence of activities, each with the clock reading of its call.\<close>

fun feed :: "(string \<Rightarrow> jsnum) \<Rightarrow> (clock \<times> activity) list \<Rightarrow> manager \<Rightarrow> manager" where
  "feed toNumber [] m = m"
| "feed toNumber ((c, a) # rest) m = feed toNumber rest (checkForPatterns toNumber c a m)"

section \<open>Executing a task on the client\<close>

text \<open>
  The outcome of \<^verbatim>\<open>fetch('/api/automation-tasks/<id>/execute')\<close>: a response with
  \<^verbatim>\<open>ok\<close> true, a response with \<^verbatim>\<open>ok\<close> false, or a rejected promise.
\<close>

datatype response = ResponseOk | ResponseNotOk | FetchRejected

text \<open>\<^verbatim>\<open>task.executionCount++\<close> on the object that \<^verbatim>\<open>tasks.find\<close> returned.\<close>

fun incrementFound :: "nat \<Rightarrow> task list \<Rightarrow> task list" where
  "incrementFound taskId [] = []"
| "incrementFound taskId (t # ts) =
     (if task_id t = taskId then t\<lparr>executionCount := executionCount t + 1\<rparr> # ts
      else t # incrementFound taskId ts)"

definition executeTask :: "nat \<Rightarrow> response \<Rightarrow> manager \<Rightarrow> manager \<times> bool" where
  \<open>executeTask taskId resp m =
     (case find (\<lambda>t. task_id t = taskId) (tasks m) of
        None \<Rightarrow> (m, False)
      | Some t \<Rightarrow>
          (case resp of
             ResponseOk \<Rightarrow>
               (m\<lparr>tasks := incrementFound taskId (tasks m),
                  emitted := emitted m @
                    [ExecutionEvent taskId True (''Task "'' @ task_name t @ ''" executed successfully'')]\<rparr>,
                True)
           | _ \<Rightarrow>
               (m\<lparr>emitted := emitted m @
                    [ExecutionEvent taskId False (''Failed to execute task "'' @ task_name t @ ''"'')]\<rparr>,
                False)))\<close>

section \<open>The server: storage and the trigger matcher\<close>

text \<open>A stored task has the columns of the schema: the client's fields and two more.\<close>

record storedTask = task +
  userId :: "nat option"
  lastExecuted :: "date option"

record activityLog =
  log_id :: nat
  log_userId :: "nat option"
  activityType :: string
  log_description :: string
  log_taskId :: nat
  log_taskName :: string
  log_executionCount :: nat
  log_timestamp :: date

text \<open>
  \<^verbatim>\<open>MemStorage\<close>: a JavaScript \<^verbatim>\<open>Map\<close> iterates in insertion order and \<^verbatim>\<open>set\<close> on a
  present key keeps its place, so the maps are association lists.
\<close>

record storage =
  automationTasks :: "(nat \<times> storedTask) list"
  activityLogs :: "(nat \<times> activityLog) list"
  currentActivityLogId :: nat

fun map_set :: "'k \<Rightarrow> 'v \<Rightarrow> ('k \<times> 'v) list \<Rightarrow> ('k \<times> 'v) list" where
  "map_set k v [] = [(k, v)]"
| "map_set k v ((k', v') # rest) =
     (if k' = k then (k, v) # rest else (k', v') # map_set k v rest)"

datatype error = TaskNotFound nat

definition getAutomationTask :: "storage \<Rightarrow> nat \<Rightarrow> storedTask option" where
  "getAutomationTask st i = map_of (automationTasks st) i"

definition getAutomationTasksByUserId :: "storage \<Rightarrow> nat \<Rightarrow> storedTask list" where
  "getAutomationTasksByUserId st uid =
     filter (\<lambda>t. userId t = Some uid) (map snd (automationTasks st))"

definition updateAutomationTaskExecutionCount ::
    "nat \<Rightarrow> clock \<Rightarrow> storage \<Rightarrow> error + storage \<times> storedTask" where
  "updateAutomationTaskExecutionCount i c st =
     (case map_of (automationTasks st) i of
        None \<Rightarrow> Inl (TaskNotFound i)
      | Some t \<Rightarrow>
          (let updatedTask = t\<lparr>executionCount := executionCount t + 1,
                               lastExecuted := Some (newDate c)\<rparr>
           in Inr (st\<lparr>automationTasks := map_set i updatedTask (automationTasks st)\<rparr>,
                   updatedTask)))"

definition createActivityLog ::
    "clock \<Rightarrow> nat option \<Rightarrow> string \<Rightarrow> string \<Rightarrow> nat \<Rightarrow> string \<Rightarrow> nat \<Rightarrow> storage \<Rightarrow> storage" where
  "createActivityLog c uid ty descr tid tname cnt st =
     (let i = currentActivityLogId st;
          entry = \<lparr>log_id = i, log_userId = uid, activityType = ty, log_description = descr,
                   log_taskId = tid, log_taskName = tname, log_executionCount = cnt,
                   log_timestamp = newDate c\<rparr>
      in st\<lparr>currentActivityLogId := i + 1,
            activityLogs := map_set i entry (activityLogs st)\<rparr>)"

text \<open>
  The server's \<^verbatim>\<open>executeTask\<close>: every exception raised in the \<^verbatim>\<open>try\<close> block ends in
  \<^verbatim>\<open>return false\<close>.
\<close>

definition server_executeTask :: "nat \<Rightarrow> clock \<Rightarrow> storage \<Rightarrow> storage \<times> bool" where
  "server_executeTask taskId c st =
     (case getAutomationTask st taskId of
        None \<Rightarrow> (st, False)
      | Some t \<Rightarrow>
          (case updateAutomationTaskExecutionCount taskId c st of
             Inl e \<Rightarrow> (st, False)
           | Inr (st1, updated) \<Rightarrow>
               (createActivityLog c (userId t) ''automation''
                  (''Executed automation task: '' @ task_name t)
                  (task_id t) (task_name t) (executionCount t + 1) st1,
                True)))"

definition activityMatchesTrigger :: "(string \<Rightarrow> jsnum) \<Rightarrow> activity \<Rightarrow> trigger \<Rightarrow> bool" where
  "activityMatchesTrigger toNumber a tr =
     (if trig_type tr = ''time'' then
        (case atimestamp a of
           None \<Rightarrow> False
         | Some activityTime \<Rightarrow>
             if atype a \<noteq> ''system'' then False
             else
               (let ns = parseNumbers toNumber CHR '':'' (trig_value tr);
                    hours = elem ns 0; minutes = elem ns 1
                in js_eq (getHours activityTime) hours \<and>
                   js_eq (getMinutes activityTime) minutes))
      else if trig_type tr = ''mouse'' then
        (case amousePosition a of
           None \<Rightarrow> False
         | Some p \<Rightarrow>
             if atype a \<noteq> ''screen_capture'' then False
             else
               (let ns = parseNumbers toNumber CHR '','' (trig_value tr);
                    targetX = elem ns 0; targetY = elem ns 1;
                    tolerance = Some 20
                in js_le (js_abs (js_sub (Some (mouseX p)) targetX)) tolerance \<and>
                   js_le (js_abs (js_sub (Some (mouseY p)) targetY)) tolerance))
      else if trig_type tr = ''keyboard'' then
        (if atype a \<noteq> ''keyboard'' \<or> \<not> aisSpecialKey a then False
         else akey a = Some (trig_value tr))
      else if trig_type tr = ''click'' then
        (if atype a \<noteq> ''mouse_click'' then False
         else
           (let ns = parseNumbers toNumber CHR '','' (trig_value tr);
                x = elem ns 0; y = elem ns 1; width = elem ns 2; height = elem ns 3
            in js_ge (ax a) x \<and> js_le (ax a) (js_add x width) \<and>
               js_ge (ay a) y \<and> js_le (ay a) (js_add y height)))
      else False)"

text \<open>The server's \<^verbatim>\<open>checkTriggers\<close> returns the first task that matches, or \<^verbatim>\<open>null\<close>.\<close>

fun firstMatching :: "(string \<Rightarrow> jsnum) \<Rightarrow> activity \<Rightarrow> storedTask list \<Rightarrow> storedTask option" where
  "firstMatching toNumber a [] = None"
| "firstMatching toNumber a (t # ts) =
     (if \<not> isActive t then firstMatching toNumber a ts
      else if list_ex (activityMatchesTrigger toNumber a) (task_triggers t) then Some t
      else firstMatching toNumber a ts)"

definition server_checkTriggers ::
    "(string \<Rightarrow> jsnum) \<Rightarrow> storage \<Rightarrow> nat \<Rightarrow> activity \<Rightarrow> storedTask option" where
  "server_checkTriggers toNumber st uid a =
     firstMatching toNumber a (getAutomationTasksByUserId st uid)"

section \<open>The activity tracker\<close>

record settings =
  captureInterval_ms :: nat
  enableKeyLogging :: bool
  enableScreenCapture :: bool
  enableAutomationSuggestions :: bool

text \<open>
  The keyboard logger: \<open>keydownAttached\<close> is the \<^verbatim>\<open>keydown\<close> handler on the document,
  \<open>flushed\<close> the texts it has handed to its \<^verbatim>\<open>keypress\<close> listeners.
\<close>

record keyboardLogger =
  isLogging :: bool
  keyBuffer :: "string list"
  keydownAttached :: bool
  flushed :: "string list"

definition flushKeyBuffer :: "keyboardLogger \<Rightarrow> keyboardLogger" where
  "flushKeyBuffer k =
     (if length (keyBuffer k) = 0 then k
      else k\<lparr>keyBuffer := [], flushed := flushed k @ [concat (keyBuffer k)]\<rparr>)"

definition keyboardLogger_start :: "keyboardLogger \<Rightarrow> keyboardLogger" where
  "keyboardLogger_start k =
     (if isLogging k then k
      else k\<lparr>isLogging := True, keydownAttached := True, keyBuffer := []\<rparr>)"

definition keyboardLogger_stop :: "keyboardLogger \<Rightarrow> keyboardLogger" where
  "keyboardLogger_stop k =
     (if \<not> isLogging k then k
      else flushKeyBuffer (k\<lparr>isLogging := False, keydownAttached := False\<rparr>))"

text \<open>
  The tracker with the part of the browser it drives: \<open>timers\<close> are the interval timers
  that are running (handle and period), \<open>timerCount\<close> the number of handles issued so
  far, \<open>announced\<close> the messages given to the \<^verbatim>\<open>activity\<close> listeners. The tracker's own
  \<^verbatim>\<open>keypress\<close> listener returns at once while \<open>isTracking\<close> is false, so the flush made
  by \<^verbatim>\<open>keyboardLogger.stop()\<close> does not reach the tracker's state.
\<close>

record tracker =
  isTracking :: bool
  settings :: settings
  captureInterval :: "nat option"
  timers :: "(nat \<times> nat) list"
  timerCount :: nat
  keyboard :: keyboardLogger
  announced :: "(string \<times> string) list"

text \<open>\<^verbatim>\<open>window.setInterval\<close> returns a fresh positive handle.\<close>

definition setInterval :: "nat \<Rightarrow> tracker \<Rightarrow> nat \<times> tracker" where
  "setInterval period w =
     (let h = Suc (timerCount w)
      in (h, w\<lparr>timers := timers w @ [(h, period)], timerCount := h\<rparr>))"

definition clearInterval :: "nat \<Rightarrow> tracker \<Rightarrow> tracker" where
  "clearInterval h w = w\<lparr>timers := filter (\<lambda>t. fst t \<noteq> h) (timers w)\<rparr>"

definition start :: "tracker \<Rightarrow> tracker" where
  "start w =
     (if isTracking w then w
      else
        (let w1 = w\<lparr>isTracking := True\<rparr>;
             w2 = (if enableKeyLogging (settings w1)
                   then w1\<lparr>keyboard := keyboardLogger_start (keyboard w1)\<rparr> else w1);
             w3 = (if enableScreenCapture (settings w2)
                   then (case setInterval (captureInterval_ms (settings w2)) w2 of
                           (h, w') \<Rightarrow> w'\<lparr>captureInterval := Some h\<rparr>)
                   else w2)
         in w3\<lparr>announced := announced w3 @ [(''activity'', ''Activity tracking started'')]\<rparr>))"

definition stop :: "tracker \<Rightarrow> tracker" where
  "stop w =
     (if \<not> isTracking w then w
      else
        (let w1 = w\<lparr>isTracking := False\<rparr>;
             w2 = (case captureInterval w1 of
                     None \<Rightarrow> w1
                   | Some h \<Rightarrow>
                       if h \<noteq> 0 then (clearInterval h w1)\<lparr>captureInterval := None\<rparr> else w1);
             w3 = w2\<lparr>keyboard := keyboardLogger_stop (keyboard w2)\<rparr>
         in w3\<lparr>announced := announced w3 @ [(''activity'', ''Activity tracking stopped'')]\<rparr>))"

section \<open>Notifying listeners\<close>

text \<open>
  A listener is a callback that changes the world it closes over and either returns or
  throws. A statement of the source ends normally or with an exception, in both cases
  with the state it has reached. \<open>calls\<close> lists the callbacks invoked so far.
\<close>

type_synonym ('d, 'w) callback = "'d \<Rightarrow> 'w \<Rightarrow> string option \<times> 'w"

record ('d, 'w) runtime =
  world :: 'w
  console :: "string list"
  calls :: "('d, 'w) callback list"

datatype 's outcome = Normal 's | Thrown string 's

definition call :: "('d, 'w) callback \<Rightarrow> 'd \<Rightarrow> ('d, 'w) runtime \<Rightarrow> ('d, 'w) runtime outcome" where
  "call cb d s =
     (case cb d (world s) of
        (thrown, w') \<Rightarrow>
          (let s' = s\<lparr>world := w', calls := calls s @ [cb]\<rparr>
           in case thrown of None \<Rightarrow> Normal s' | Some e \<Rightarrow> Thrown e s'))"

definition console_error :: "string \<Rightarrow> ('d, 'w) runtime \<Rightarrow> ('d, 'w) runtime outcome" where
  "console_error msg s = Normal (s\<lparr>console := console s @ [msg]\<rparr>)"

definition try_catch ::
    "('s \<Rightarrow> 's outcome) \<Rightarrow> (string \<Rightarrow> 's \<Rightarrow> 's outcome) \<Rightarrow> 's \<Rightarrow> 's outcome" where
  "try_catch body handler s =
     (case body s of Normal s' \<Rightarrow> Normal s' | Thrown e s' \<Rightarrow> handler e s')"

text \<open>\<^verbatim>\<open>Array.prototype.forEach\<close>: an exception of the body ends the iteration.\<close>

fun forEach :: "('a \<Rightarrow> 's \<Rightarrow> 's outcome) \<Rightarrow> 'a list \<Rightarrow> 's \<Rightarrow> 's outcome" where
  "forEach f [] s = Normal s"
| "forEach f (x # xs) s =
     (case f x s of Normal s' \<Rightarrow> forEach f xs s' | Thrown e s' \<Rightarrow> Thrown e s')"

text \<open>
  \<^verbatim>\<open>notifyListeners\<close> is the same method, word for word, in \<^verbatim>\<open>ActivityTracker\<close>,
  \<^verbatim>\<open>AutomationManager\<close> and \<^verbatim>\<open>KeyboardLogger\<close>. \<open>listeners\<close> is the registry object, from
  event names to arrays of callbacks.
\<close>

definition notifyListeners ::
    "(string \<rightharpoonup> ('d, 'w) callback list) \<Rightarrow> string \<Rightarrow> 'd \<Rightarrow> ('d, 'w) runtime
       \<Rightarrow> ('d, 'w) runtime outcome" where
  \<open>notifyListeners listeners event d s =
     (case listeners event of
        None \<Rightarrow> Normal s
      | Some callbacks \<Rightarrow>
          forEach
            (\<lambda>callback.
               try_catch (call callback d)
                 (\<lambda>err. console_error (''Error in listener for event "'' @ event @ ''": '' @ err)))
            callbacks s)\<close>

section \<open>Vocabulary of the specification\<close>

text \<open>The dedup key of a stored suggestion: its detector type and detector key.\<close>

definition dedupKey :: "suggestion \<Rightarrow> string \<times> string" where
  "dedupKey s = (mtype (sug_metadata s), subtype (sug_metadata s))"

text \<open>
  The application names a history carries, oldest first: the name of every application
  event and of every screen capture with an application name, empty names left out.
\<close>

definition appNames :: "activity list \<Rightarrow> string list" where
  "appNames history =
     concat (map (\<lambda>a. case appName a of
                         None \<Rightarrow> []
                       | Some n \<Rightarrow> if n \<noteq> [] then [n] else [])
               (filter isAppActivity history))"

text \<open>
  The specification's words for the application-sequence detector: the last three
  distinct application names, the most recently seen first.
\<close>

definition lastThreeDistinctApps :: "activity list \<Rightarrow> string list" where
  "lastThreeDistinctApps history = take 3 (rev (remdups (appNames history)))"

text \<open>
  The suggestion the repeated-type detector makes for mouse clicks: the notifications
  that carry one, the clicks among the last 20 activities of a history, and the
  suggestion built from them.
\<close>

definition isClickSuggestion :: "notification \<Rightarrow> bool" where
  "isClickSuggestion n =
     (case n of
        SuggestionEvent s \<Rightarrow> dedupKey s = (''repeated_sequence'', ''mouse_click'')
      | ExecutionEvent i ok msg \<Rightarrow> False)"

definition clicksOf :: "activity list \<Rightarrow> activity list" where
  "clicksOf history = filter (\<lambda>a. atype a = ''mouse_click'') (slice_last 20 history)"

definition clickSuggestion :: "clock \<Rightarrow> activity list \<Rightarrow> suggestion" where
  "clickSuggestion c history =
     new_suggestion c
       \<lparr>d_title = ''Repeated Clicks Detected'',
        d_description = ''You've clicked in the same area multiple times. Want to automate this?'',
        d_confidence = 0.6, d_activities = clicksOf history,
        d_type = ''repeated_sequence'', d_subtype = ''mouse_click''\<rparr>"

section \<open>Concrete inputs\<close>

text \<open>
  \<^verbatim>\<open>Number\<close> on the strings the examples use: a run of decimal digits, the empty
  string being 0. Every other string is \<^verbatim>\<open>NaN\<close> here.
\<close>

fun digitsValue :: "string \<Rightarrow> nat \<Rightarrow> nat option" where
  "digitsValue [] acc = Some acc"
| "digitsValue (ch # rest) acc =
     (let n = (of_char ch :: nat)
      in if 48 \<le> n \<and> n \<le> 57 then digitsValue rest (10 * acc + (n - 48)) else None)"

definition decimalNumber :: "string \<Rightarrow> jsnum" where
  "decimalNumber s = map_option real (digitsValue s 0)"

definition blank_activity :: activity where
  "blank_activity =
     \<lparr>atype = [], atimestamp = None, atext = None, atextData = None, aname = None,
      amousePosition = None, aisSpecialKey = False, akey = None, ax = None, ay = None\<rparr>"

definition click_at :: "real \<Rightarrow> real \<Rightarrow> activity" where
  "click_at x y = blank_activity\<lparr>atype := ''mouse_click'', ax := Some x, ay := Some y\<rparr>"

definition special_key :: "string \<Rightarrow> date \<Rightarrow> activity" where
  "special_key k d =
     blank_activity\<lparr>atype := ''keyboard'', atimestamp := Some d, aisSpecialKey := True,
                    akey := Some k\<rparr>"

definition application_opened :: "string \<Rightarrow> activity" where
  "application_opened n = blank_activity\<lparr>atype := ''application'', aname := Some n\<rparr>"

definition new_task :: "nat \<Rightarrow> string \<Rightarrow> trigger list \<Rightarrow> task" where
  "new_task i n trs =
     \<lparr>task_id = i, task_name = n, task_description = [], task_steps = [],
      task_triggers = trs, executionCount = 0, isActive = True\<rparr>"

definition half_past_nine :: clock where
  "half_past_nine = \<lparr>dateNow = 1745926925367, newDate = Date 9 30\<rparr>"

definition stored :: "string \<Rightarrow> string \<Rightarrow> suggestion" where
  "stored ty sub =
     new_suggestion half_past_nine
       \<lparr>d_title = [], d_description = [], d_confidence = 0.6, d_activities = [],
        d_type = ty, d_subtype = sub\<rparr>"

definition full_store :: manager where
  "full_store =
     initial_manager\<lparr>suggestions :=
       map (\<lambda>i. stored ''app_sequence'' (replicate i CHR ''a''))
         [1, 2, 3, 4, 5, 6, 7, 8, 9, 10]\<rparr>"

definition three_apps :: "activity list" where
  "three_apps = [application_opened ''A'', application_opened ''B'', application_opened ''C'']"

definition initial_tracker :: tracker where
  "initial_tracker =
     \<lparr>isTracking = False,
      settings = \<lparr>captureInterval_ms = 1000, enableKeyLogging = True,
                  enableScreenCapture = True, enableAutomationSuggestions = True\<rparr>,
      captureInterval = None, timers = [], timerCount = 0,
      keyboard = \<lparr>isLogging = False, keyBuffer = [], keydownAttached = False, flushed = []\<rparr>,
      announced = []\<rparr>"

definition stored_reload :: storedTask where
  "stored_reload =
     \<lparr>task_id = 1, task_name = ''reload'', task_description = [], task_steps = [],
      task_triggers = [], executionCount = 0, isActive = True,
      userId = Some 1, lastExecuted = None\<rparr>"

definition one_task_storage :: storage where
  "one_task_storage =
     \<lparr>automationTasks = [(1, stored_reload)], activityLogs = [], currentActivityLogId = 1\<rparr>"

text \<open>A number of presses of F5 followed by a number of clicks at one place.\<close>

definition keys_then_clicks :: "nat \<Rightarrow> nat \<Rightarrow> (clock \<times> activity) list" where
  "keys_then_clicks k n =
     replicate k (half_past_nine, special_key ''F5'' (Date 9 30)) @
     replicate n (half_past_nine, click_at 100 200)"

section \<open>The history buffer\<close>

lemma createSuggestion_history: "activityHistory (createSuggestion c d m) = activityHistory m"
  by (simp add: createSuggestion_def Let_def)

lemma repeatedEntry_history: "activityHistory (repeatedEntry c r e m) = activityHistory m"
  by (cases e) (simp add: repeatedEntry_def Let_def createSuggestion_history)

lemma fold_repeatedEntry_history:
  "activityHistory (fold (repeatedEntry c r) es m) = activityHistory m"
  by (induction es arbitrary: m) (simp_all add: repeatedEntry_history)

lemma detectRepeatedSequence_history:
  "activityHistory (detectRepeatedSequence c m) = activityHistory m"
  by (simp add: detectRepeatedSequence_def Let_def fold_repeatedEntry_history)

lemma detectApplicationPatterns_history:
  "activityHistory (detectApplicationPatterns c m) = activityHistory m"
  by (simp add: detectApplicationPatterns_def Let_def createSuggestion_history)

lemma detectPatterns_history: "activityHistory (detectPatterns c m) = activityHistory m"
  by (simp add: detectPatterns_def detectTimeBasedPatterns_def
      detectApplicationPatterns_history detectRepeatedSequence_history)

lemma checkForPatterns_history:
  "activityHistory (checkForPatterns toNumber c a m) =
     slice_last 1000 (activityHistory m @ [a])"
  by (simp add: checkForPatterns_def Let_def detectPatterns_history historyMaxLength_def
      slice_last_def)

lemma slice_last_append:
  "slice_last n (slice_last n xs @ ys) = slice_last n (xs @ ys)"
proof (cases "length xs \<le> n")
  case True
  then show ?thesis by (simp add: slice_last_def)
next
  case False
  define k where "k = length xs - n"
  have len: "length xs = k + n" using False by (simp add: k_def)
  have "slice_last n (slice_last n xs @ ys) = drop (length ys) (drop k xs @ ys)"
    by (simp add: slice_last_def len)
  also have "\<dots> = drop (length ys) (drop k (xs @ ys))"
    by (simp add: len)
  also have "\<dots> = drop (k + length ys) (xs @ ys)"
    by (simp only: drop_drop add.commute)
  also have "\<dots> = slice_last n (xs @ ys)"
    by (simp add: slice_last_def len)
  finally show ?thesis .
qed

lemma feed_history:
  "activityHistory (feed toNumber es m) =
     slice_last 1000 (activityHistory m @ map snd es)" if "length (activityHistory m) \<le> 1000"
  using that
proof (induction es arbitrary: m)
  case Nil
  then show ?case by (simp add: slice_last_def)
next
  case (Cons e es)
  obtain c a where e: "e = (c, a)" by (cases e)
  have len: "length (activityHistory (checkForPatterns toNumber c a m)) \<le> 1000"
    by (simp add: checkForPatterns_history slice_last_def)
  have "activityHistory (feed toNumber (e # es) m) =
        slice_last 1000 (slice_last 1000 (activityHistory m @ [a]) @ map snd es)"
    using Cons.IH [OF len] by (simp add: e checkForPatterns_history)
  also have "\<dots> = slice_last 1000 (activityHistory m @ [a] @ map snd es)"
    using slice_last_append [of 1000 "activityHistory m @ [a]" "map snd es"] by simp
  finally show ?case by (simp add: e)
qed

text \<open>
  Claim C4. Feed any sequence of activities to a manager whose history is empty, one
  \<^verbatim>\<open>checkForPatterns\<close> call per activity: the history is then the last
  \<open>min 1000 (length es)\<close> activities fed, in their order of arrival, and has that length.
  Every prefix of a sequence is a sequence, so this holds after each call.
\<close>

theorem history_buffer_bounded:
  "activityHistory (feed toNumber es (initial_manager\<lparr>tasks := ts\<rparr>)) =
     drop (length es - 1000) (map snd es) \<and>
   length (activityHistory (feed toNumber es (initial_manager\<lparr>tasks := ts\<rparr>))) =
     min 1000 (length es)"
proof -
  have "activityHistory (feed toNumber es (initial_manager\<lparr>tasks := ts\<rparr>)) =
        slice_last 1000 (map snd es)"
    using feed_history [of "initial_manager\<lparr>tasks := ts\<rparr>" toNumber es]
    by (simp add: initial_manager_def)
  then show ?thesis by (auto simp: slice_last_def)
qed

section \<open>The bound of the suggestion store\<close>

lemma createSuggestion_suggestions:
  "suggestions (createSuggestion c d m) =
     (if length (suggestions m) \<ge> 10 then tl (suggestions m @ [new_suggestion c d])
      else suggestions m @ [new_suggestion c d])"
  by (simp add: createSuggestion_def Let_def)

lemma createSuggestion_bound:
  "length (suggestions m) \<le> 10 \<Longrightarrow> length (suggestions (createSuggestion c d m)) \<le> 10"
  by (simp add: createSuggestion_suggestions)

lemma repeatedEntry_bound:
  "length (suggestions m) \<le> 10 \<Longrightarrow> length (suggestions (repeatedEntry c r e m)) \<le> 10"
  by (cases e) (simp add: repeatedEntry_def Let_def createSuggestion_bound)

lemma fold_repeatedEntry_bound:
  "length (suggestions m) \<le> 10 \<Longrightarrow>
   length (suggestions (fold (repeatedEntry c r) es m)) \<le> 10"
  by (induction es arbitrary: m) (simp_all add: repeatedEntry_bound)

lemma detectRepeatedSequence_bound:
  "length (suggestions m) \<le> 10 \<Longrightarrow> length (suggestions (detectRepeatedSequence c m)) \<le> 10"
  by (simp add: detectRepeatedSequence_def Let_def fold_repeatedEntry_bound)

lemma detectApplicationPatterns_bound:
  "length (suggestions m) \<le> 10 \<Longrightarrow>
   length (suggestions (detectApplicationPatterns c m)) \<le> 10"
  by (simp add: detectApplicationPatterns_def Let_def createSuggestion_bound)

lemma detectPatterns_bound:
  "length (suggestions m) \<le> 10 \<Longrightarrow> length (suggestions (detectPatterns c m)) \<le> 10"
  by (simp add: detectPatterns_def detectTimeBasedPatterns_def
      detectApplicationPatterns_bound detectRepeatedSequence_bound)

lemma checkForPatterns_bound:
  "length (suggestions m) \<le> 10 \<Longrightarrow>
   length (suggestions (checkForPatterns toNumber c a m)) \<le> 10"
  by (simp add: checkForPatterns_def Let_def detectPatterns_bound)

lemma feed_bound:
  "length (suggestions m) \<le> 10 \<Longrightarrow> length (suggestions (feed toNumber es m)) \<le> 10"
  by (induction es arbitrary: m) (auto simp: checkForPatterns_bound)

text \<open>
  Claim C8. The store never holds more than 10 suggestions, whatever is fed to the
  manager. When it holds 10 and \<^verbatim>\<open>createSuggestion\<close> accepts one more, the store is the
  old one without its first (oldest) entry, followed by the new suggestion: its size is
  10 again and every other entry is unchanged. Below 10 the new suggestion is appended.
\<close>

theorem suggestion_store_bound:
  "length (suggestions (feed toNumber es (initial_manager\<lparr>tasks := ts\<rparr>))) \<le> 10 \<and>
   (length (suggestions m) = 10 \<longrightarrow>
      suggestions (createSuggestion c d m) = tl (suggestions m) @ [new_suggestion c d] \<and>
      length (suggestions (createSuggestion c d m)) = 10) \<and>
   (length (suggestions m) < 10 \<longrightarrow>
      suggestions (createSuggestion c d m) = suggestions m @ [new_suggestion c d])"
proof -
  have "length (suggestions (feed toNumber es (initial_manager\<lparr>tasks := ts\<rparr>))) \<le> 10"
    by (rule feed_bound) (simp add: initial_manager_def)
  moreover have "suggestions (createSuggestion c d m) = tl (suggestions m) @ [new_suggestion c d]"
    if "length (suggestions m) = 10"
    using that by (cases "suggestions m") (simp_all add: createSuggestion_suggestions)
  ultimately show ?thesis
    by (simp add: createSuggestion_suggestions)
qed

theorem suggestion_store_bound_witness:
  "length (suggestions full_store) = 10 \<and>
   suggestions (createSuggestion half_past_nine
       \<lparr>d_title = ''Application Sequence'', d_description = [], d_confidence = 0.65,
        d_activities = [], d_type = ''app_sequence'', d_subtype = ''A,B,C''\<rparr> full_store) =
     tl (suggestions full_store) @
       [new_suggestion half_past_nine
          \<lparr>d_title = ''Application Sequence'', d_description = [], d_confidence = 0.65,
           d_activities = [], d_type = ''app_sequence'', d_subtype = ''A,B,C''\<rparr>] \<and>
   map (length \<circ> subtype \<circ> sug_metadata)
     (suggestions (createSuggestion half_past_nine
       \<lparr>d_title = ''Application Sequence'', d_description = [], d_confidence = 0.65,
        d_activities = [], d_type = ''app_sequence'', d_subtype = ''A,B,C''\<rparr> full_store)) =
     [2, 3, 4, 5, 6, 7, 8, 9, 10, 5]"
proof -
  have full: "length (suggestions full_store) = 10"
    by (simp add: full_store_def initial_manager_def)
  have "map (length \<circ> subtype \<circ> sug_metadata) (suggestions full_store) =
          [1, 2, 3, 4, 5, 6, 7, 8, 9, 10]"
    by (simp add: full_store_def initial_manager_def stored_def new_suggestion_def)
  then show ?thesis
    using full suggestion_store_bound [of decimalNumber "[]" "[]" full_store half_past_nine
        "\<lparr>d_title = ''Application Sequence'', d_description = [], d_confidence = 0.65,
          d_activities = [], d_type = ''app_sequence'', d_subtype = ''A,B,C''\<rparr>"]
    by (simp add: new_suggestion_def map_tl)
qed

section \<open>Deduplication of suggestions\<close>

lemma hasExistingSuggestion_iff:
  "hasExistingSuggestion m ty sub \<longleftrightarrow> (ty, sub) \<in> set (map dedupKey (suggestions m))"
  by (auto simp: hasExistingSuggestion_def list_ex_iff dedupKey_def)

lemma dedupKey_new: "dedupKey (new_suggestion c d) = (d_type d, d_subtype d)"
  by (simp add: dedupKey_def new_suggestion_def)

lemma createSuggestion_distinct:
  assumes "distinct (map dedupKey (suggestions m))"
    and "\<not> hasExistingSuggestion m (d_type d) (d_subtype d)"
  shows "distinct (map dedupKey (suggestions (createSuggestion c d m)))"
proof -
  have all: "distinct (map dedupKey (suggestions m @ [new_suggestion c d]))"
    using assms by (simp add: hasExistingSuggestion_iff dedupKey_new)
  then have "distinct (map dedupKey (tl (suggestions m @ [new_suggestion c d])))"
    by (simp only: map_tl distinct_tl)
  with all show ?thesis
    by (cases "length (suggestions m) \<ge> 10") (simp_all only: createSuggestion_suggestions if_True if_False)
qed

lemma repeatedEntry_distinct:
  "distinct (map dedupKey (suggestions m)) \<Longrightarrow>
   distinct (map dedupKey (suggestions (repeatedEntry c r e m)))"
  by (cases e) (simp add: repeatedEntry_def Let_def createSuggestion_distinct)

lemma fold_repeatedEntry_distinct:
  "distinct (map dedupKey (suggestions m)) \<Longrightarrow>
   distinct (map dedupKey (suggestions (fold (repeatedEntry c r) es m)))"
  by (induction es arbitrary: m) (simp_all add: repeatedEntry_distinct)

lemma detectApplicationPatterns_distinct:
  "distinct (map dedupKey (suggestions m)) \<Longrightarrow>
   distinct (map dedupKey (suggestions (detectApplicationPatterns c m)))"
  by (simp add: detectApplicationPatterns_def Let_def createSuggestion_distinct)

lemma detectPatterns_distinct:
  "distinct (map dedupKey (suggestions m)) \<Longrightarrow>
   distinct (map dedupKey (suggestions (detectPatterns c m)))"
  by (simp add: detectPatterns_def detectTimeBasedPatterns_def detectRepeatedSequence_def
      Let_def detectApplicationPatterns_distinct fold_repeatedEntry_distinct)

lemma checkForPatterns_distinct:
  "distinct (map dedupKey (suggestions m)) \<Longrightarrow>
   distinct (map dedupKey (suggestions (checkForPatterns toNumber c a m)))"
  by (simp add: checkForPatterns_def Let_def detectPatterns_distinct)

lemma feed_distinct:
  "distinct (map dedupKey (suggestions m)) \<Longrightarrow>
   distinct (map dedupKey (suggestions (feed toNumber es m)))"
  by (induction es arbitrary: m) (auto simp: checkForPatterns_distinct)

text \<open>
  Claim C5. When the store holds a suggestion with the key \<open>(repeated_sequence, ty)\<close>,
  the repeated-type detector's step for the type \<open>ty\<close> changes nothing; when it holds one
  with the key the application-sequence detector computes, that detector changes nothing.
  As a consequence the keys of the stored suggestions stay pairwise distinct through
  every \<^verbatim>\<open>checkForPatterns\<close> call, and are so in every state reached from the empty one:
  a key that is stored is stored once.
\<close>

theorem suggestion_dedup:
  "(hasExistingSuggestion m ''repeated_sequence'' ty \<longrightarrow>
      repeatedEntry c recent (ty, n) m = m) \<and>
   (hasExistingSuggestion m ''app_sequence''
        (js_join '','' (collectRecentApps (rev (filter isAppActivity (activityHistory m))) [])) \<longrightarrow>
      detectApplicationPatterns c m = m) \<and>
   (distinct (map dedupKey (suggestions m)) \<longrightarrow>
      distinct (map dedupKey (suggestions (checkForPatterns toNumber c a m)))) \<and>
   distinct (map dedupKey (suggestions (feed toNumber es (initial_manager\<lparr>tasks := ts\<rparr>))))"
proof -
  have "distinct (map dedupKey (suggestions (feed toNumber es (initial_manager\<lparr>tasks := ts\<rparr>))))"
    by (rule feed_distinct) (simp add: initial_manager_def)
  moreover have "repeatedEntry c recent (ty, n) m = m"
    if "hasExistingSuggestion m ''repeated_sequence'' ty"
    using that by (simp add: repeatedEntry_def)
  moreover have "detectApplicationPatterns c m = m"
    if "hasExistingSuggestion m ''app_sequence''
        (js_join '','' (collectRecentApps (rev (filter isAppActivity (activityHistory m))) []))"
    using that by (simp add: detectApplicationPatterns_def Let_def)
  ultimately show ?thesis
    using checkForPatterns_distinct by blast
qed

theorem suggestion_dedup_witness:
  "hasExistingSuggestion
     (initial_manager\<lparr>activityHistory := three_apps,
        suggestions := [stored ''repeated_sequence'' ''mouse_click'',
                        stored ''app_sequence'' ''C,B,A'']\<rparr>)
     ''repeated_sequence'' ''mouse_click'' \<and>
   repeatedEntry half_past_nine [] (''mouse_click'', 5)
     (initial_manager\<lparr>activityHistory := three_apps,
        suggestions := [stored ''repeated_sequence'' ''mouse_click'',
                        stored ''app_sequence'' ''C,B,A'']\<rparr>) =
     initial_manager\<lparr>activityHistory := three_apps,
        suggestions := [stored ''repeated_sequence'' ''mouse_click'',
                        stored ''app_sequence'' ''C,B,A'']\<rparr> \<and>
   js_join '','' (collectRecentApps (rev (filter isAppActivity three_apps)) []) = ''C,B,A'' \<and>
   detectApplicationPatterns half_past_nine
     (initial_manager\<lparr>activityHistory := three_apps,
        suggestions := [stored ''repeated_sequence'' ''mouse_click'',
                        stored ''app_sequence'' ''C,B,A'']\<rparr>) =
     initial_manager\<lparr>activityHistory := three_apps,
        suggestions := [stored ''repeated_sequence'' ''mouse_click'',
                        stored ''app_sequence'' ''C,B,A'']\<rparr> \<and>
   distinct (map dedupKey (suggestions
     (checkForPatterns decimalNumber half_past_nine (click_at 100 200)
        (initial_manager\<lparr>activityHistory := three_apps,
           suggestions := [stored ''repeated_sequence'' ''mouse_click'',
                           stored ''app_sequence'' ''C,B,A'']\<rparr>))))"
proof -
  define m where
    "m = initial_manager\<lparr>activityHistory := three_apps,
           suggestions := [stored ''repeated_sequence'' ''mouse_click'',
                           stored ''app_sequence'' ''C,B,A'']\<rparr>"
  have h1: "hasExistingSuggestion m ''repeated_sequence'' ''mouse_click''"
    by (simp add: m_def hasExistingSuggestion_def stored_def new_suggestion_def)
  have key: "js_join '','' (collectRecentApps (rev (filter isAppActivity (activityHistory m))) [])
               = ''C,B,A''"
    by (simp add: m_def three_apps_def application_opened_def blank_activity_def
        isAppActivity_def appName_def)
  have h2: "hasExistingSuggestion m ''app_sequence''
              (js_join '','' (collectRecentApps (rev (filter isAppActivity (activityHistory m))) []))"
    unfolding key by (simp add: m_def hasExistingSuggestion_def stored_def new_suggestion_def)
  have h3: "distinct (map dedupKey (suggestions m))"
    by (simp add: m_def dedupKey_def stored_def new_suggestion_def)
  have hist: "activityHistory m = three_apps"
    by (simp add: m_def)
  show ?thesis
    using h1 h2 h3 key
      suggestion_dedup [of m "''mouse_click''" half_past_nine "[]" 5 decimalNumber
        "click_at 100 200" "[]" "[]"]
    unfolding m_def [symmetric] hist by simp
qed

section \<open>The repeated-type detector and mouse clicks\<close>

lemma countType_map_of:
  "map_of (countType t tc) t' =
     (if t' = t then Some (case map_of tc t of None \<Rightarrow> 1 | Some n \<Rightarrow> n + 1)
      else map_of tc t')"
  by (induction tc) auto

lemma countType_keys: "set (map fst (countType t tc)) = insert t (set (map fst tc))"
proof (induction tc)
  case Nil
  then show ?case by simp
next
  case (Cons e tc)
  obtain k n where e: "e = (k, n)" by (cases e)
  from Cons show ?case
    by (cases "k = t") (simp_all add: e insert_commute)
qed

lemma countType_distinct:
  "distinct (map fst tc) \<Longrightarrow> distinct (map fst (countType t tc))"
proof (induction tc)
  case Nil
  then show ?case by simp
next
  case (Cons e tc)
  obtain k n where e: "e = (k, n)" by (cases e)
  show ?case
    using Cons countType_keys [of t tc] by (auto simp: e)
qed

lemma fold_count_distinct:
  "distinct (map fst tc) \<Longrightarrow>
   distinct (map fst (fold (\<lambda>a tc. if atype a = [] then tc else countType (atype a) tc) xs tc))"
  by (induction xs arbitrary: tc) (simp_all add: countType_distinct)

lemma fold_count_map_of:
  "t \<noteq> [] \<Longrightarrow>
   map_of (fold (\<lambda>a tc. if atype a = [] then tc else countType (atype a) tc) xs tc) t =
     (if filter (\<lambda>a. atype a = t) xs = [] then map_of tc t
      else Some (length (filter (\<lambda>a. atype a = t) xs) +
                 (case map_of tc t of None \<Rightarrow> 0 | Some n \<Rightarrow> n)))"
proof (induction xs arbitrary: tc)
  case Nil
  then show ?case by simp
next
  case (Cons a xs)
  show ?case
  proof (cases "atype a = t")
    case True
    then show ?thesis
      using Cons.prems by (simp add: Cons.IH countType_map_of split: option.splits)
  next
    case False
    then show ?thesis
      using Cons.prems by (simp add: Cons.IH countType_map_of)
  qed
qed

lemma typeCounts_distinct: "distinct (map fst (typeCounts xs))"
  by (simp add: typeCounts_def fold_count_distinct)

lemma typeCounts_map_of:
  "t \<noteq> [] \<Longrightarrow>
   map_of (typeCounts xs) t =
     (if filter (\<lambda>a. atype a = t) xs = [] then None
      else Some (length (filter (\<lambda>a. atype a = t) xs)))"
  by (simp add: typeCounts_def fold_count_map_of)

lemma createSuggestion_keys:
  "set (map dedupKey (suggestions (createSuggestion c d m))) \<subseteq>
     insert (d_type d, d_subtype d) (set (map dedupKey (suggestions m)))"
proof -
  have tlD: "x \<in> set xs" if "x \<in> set (tl xs)" for x :: suggestion and xs
    using that by (cases xs) auto
  have "set (suggestions (createSuggestion c d m)) \<subseteq>
          insert (new_suggestion c d) (set (suggestions m))"
    by (auto simp: createSuggestion_def Let_def dest!: tlD)
  then show ?thesis
    by (auto simp: dedupKey_def new_suggestion_def)
qed

lemma createSuggestion_emitted:
  "emitted (createSuggestion c d m) = emitted m @ [SuggestionEvent (new_suggestion c d)]"
  by (simp add: createSuggestion_def Let_def)

lemma createSuggestion_other_key:
  assumes "(d_type d, d_subtype d) \<noteq> (''repeated_sequence'', ''mouse_click'')"
  shows "filter isClickSuggestion (emitted (createSuggestion c d m)) =
           filter isClickSuggestion (emitted m)"
    and "\<not> hasExistingSuggestion m ''repeated_sequence'' ''mouse_click'' \<Longrightarrow>
         \<not> hasExistingSuggestion (createSuggestion c d m) ''repeated_sequence'' ''mouse_click''"
proof -
  show "filter isClickSuggestion (emitted (createSuggestion c d m)) =
           filter isClickSuggestion (emitted m)"
    using assms
    by (simp add: createSuggestion_emitted isClickSuggestion_def dedupKey_def new_suggestion_def)
  show "\<not> hasExistingSuggestion (createSuggestion c d m) ''repeated_sequence'' ''mouse_click''"
    if "\<not> hasExistingSuggestion m ''repeated_sequence'' ''mouse_click''"
    using that assms createSuggestion_keys [of c d m]
    unfolding hasExistingSuggestion_iff by auto
qed

lemma repeatedEntry_other:
  assumes "fst e \<noteq> ''mouse_click''"
  shows "filter isClickSuggestion (emitted (repeatedEntry c r e m)) =
           filter isClickSuggestion (emitted m)"
    and "\<not> hasExistingSuggestion m ''repeated_sequence'' ''mouse_click'' \<Longrightarrow>
         \<not> hasExistingSuggestion (repeatedEntry c r e m) ''repeated_sequence'' ''mouse_click''"
  using assms
  by (cases e; simp add: repeatedEntry_def Let_def createSuggestion_other_key)+

lemma fold_repeatedEntry_other:
  "''mouse_click'' \<notin> fst ` set es \<Longrightarrow>
   filter isClickSuggestion (emitted (fold (repeatedEntry c r) es m)) =
     filter isClickSuggestion (emitted m)"
proof (induction es arbitrary: m)
  case Nil
  then show ?case by simp
next
  case (Cons e es)
  then have "fst e \<noteq> ''mouse_click''" and "''mouse_click'' \<notin> fst ` set es"
    by auto
  then show ?case
    by (simp add: Cons.IH repeatedEntry_other(1))
qed

lemma repeatedEntry_click:
  assumes "\<not> hasExistingSuggestion m ''repeated_sequence'' ''mouse_click''"
  shows "filter isClickSuggestion (emitted (repeatedEntry c (slice_last 20 h) (''mouse_click'', n) m)) =
           filter isClickSuggestion (emitted m) @
             (if 3 \<le> n then [SuggestionEvent (clickSuggestion c h)] else [])"
  using assms
  by (simp add: repeatedEntry_def Let_def createSuggestion_emitted isClickSuggestion_def
      clickSuggestion_def clicksOf_def dedupKey_def new_suggestion_def)

lemma fold_repeatedEntry_click:
  assumes "distinct (map fst es)"
    and "\<not> hasExistingSuggestion m ''repeated_sequence'' ''mouse_click''"
  shows "filter isClickSuggestion (emitted (fold (repeatedEntry c (slice_last 20 h)) es m)) =
           filter isClickSuggestion (emitted m) @
             (case map_of es ''mouse_click'' of
                None \<Rightarrow> []
              | Some n \<Rightarrow> if 3 \<le> n then [SuggestionEvent (clickSuggestion c h)] else [])"
  using assms
proof (induction es arbitrary: m)
  case Nil
  then show ?case by simp
next
  case (Cons e es)
  obtain t n where e: "e = (t, n)" by (cases e)
  show ?case
  proof (cases "t = ''mouse_click''")
    case True
    then have rest: "''mouse_click'' \<notin> fst ` set es"
      using Cons.prems(1) e by auto
    show ?thesis
      using True e Cons.prems(2)
      by (simp add: fold_repeatedEntry_other [OF rest] repeatedEntry_click)
  next
    case False
    then have "\<not> hasExistingSuggestion (repeatedEntry c (slice_last 20 h) e m)
                 ''repeated_sequence'' ''mouse_click''"
      using Cons.prems(2) e by (intro repeatedEntry_other) simp_all
    moreover have "distinct (map fst es)" using Cons.prems(1) by simp
    ultimately show ?thesis
      using False e Cons.IH [of "repeatedEntry c (slice_last 20 h) e m"]
      by (simp add: repeatedEntry_other)
  qed
qed

lemma detectRepeatedSequence_click:
  assumes "\<not> hasExistingSuggestion m ''repeated_sequence'' ''mouse_click''"
  shows "filter isClickSuggestion (emitted (detectRepeatedSequence c m)) =
           filter isClickSuggestion (emitted m) @
             (if 3 \<le> length (clicksOf (activityHistory m))
              then [SuggestionEvent (clickSuggestion c (activityHistory m))] else [])"
proof -
  have "map_of (typeCounts (slice_last 20 (activityHistory m))) ''mouse_click'' =
          (if clicksOf (activityHistory m) = [] then None
           else Some (length (clicksOf (activityHistory m))))"
    by (simp add: typeCounts_map_of clicksOf_def)
  then show ?thesis
    using fold_repeatedEntry_click [OF typeCounts_distinct assms, of c "activityHistory m"
        "slice_last 20 (activityHistory m)"]
    by (simp add: detectRepeatedSequence_def Let_def)
qed

lemma detectApplicationPatterns_click:
  "filter isClickSuggestion (emitted (detectApplicationPatterns c m)) =
     filter isClickSuggestion (emitted m)"
  by (simp add: detectApplicationPatterns_def Let_def createSuggestion_other_key)

lemma detectPatterns_click:
  assumes "\<not> hasExistingSuggestion m ''repeated_sequence'' ''mouse_click''"
  shows "filter isClickSuggestion (emitted (detectPatterns c m)) =
           filter isClickSuggestion (emitted m) @
             (if 10 \<le> length (activityHistory m) \<and> 3 \<le> length (clicksOf (activityHistory m))
              then [SuggestionEvent (clickSuggestion c (activityHistory m))] else [])"
  using detectRepeatedSequence_click [OF assms, of c]
  by (simp add: detectPatterns_def detectTimeBasedPatterns_def detectApplicationPatterns_click)

lemma checkForPatterns_click:
  assumes "\<not> hasExistingSuggestion m ''repeated_sequence'' ''mouse_click''"
  shows "filter isClickSuggestion (emitted (checkForPatterns toNumber c a m)) =
           filter isClickSuggestion (emitted m) @
             (if 10 \<le> length (slice_last 1000 (activityHistory m @ [a])) \<and>
                 3 \<le> length (clicksOf (slice_last 1000 (activityHistory m @ [a])))
              then [SuggestionEvent (clickSuggestion c (slice_last 1000 (activityHistory m @ [a])))]
              else [])"
proof -
  define m0 where "m0 = m\<lparr>activityHistory := slice_last 1000 (activityHistory m @ [a])\<rparr>"
  have "\<not> hasExistingSuggestion m0 ''repeated_sequence'' ''mouse_click''"
    using assms by (simp add: m0_def hasExistingSuggestion_def)
  from detectPatterns_click [OF this, of c] have
    "filter isClickSuggestion (emitted (detectPatterns c m0)) =
       filter isClickSuggestion (emitted m) @
         (if 10 \<le> length (slice_last 1000 (activityHistory m @ [a])) \<and>
             3 \<le> length (clicksOf (slice_last 1000 (activityHistory m @ [a])))
          then [SuggestionEvent (clickSuggestion c (slice_last 1000 (activityHistory m @ [a])))]
          else [])"
    by (simp add: m0_def)
  moreover have "emitted (checkForPatterns toNumber c a m) = emitted (detectPatterns c m0)"
    by (simp add: checkForPatterns_def Let_def m0_def historyMaxLength_def slice_last_def)
  ultimately show ?thesis by simp
qed

lemma checkForPatterns_short:
  "length (activityHistory m) < 9 \<Longrightarrow>
   suggestions (checkForPatterns toNumber c a m) = suggestions m \<and>
   emitted (checkForPatterns toNumber c a m) = emitted m \<and>
   length (activityHistory (checkForPatterns toNumber c a m)) = Suc (length (activityHistory m))"
  by (simp add: checkForPatterns_def Let_def historyMaxLength_def detectPatterns_def)

lemma feed_short:
  "length (activityHistory m) + length es < 10 \<Longrightarrow>
   suggestions (feed toNumber es m) = suggestions m \<and> emitted (feed toNumber es m) = emitted m"
proof (induction es arbitrary: m)
  case Nil
  then show ?case by simp
next
  case (Cons e es)
  obtain c a where e: "e = (c, a)" by (cases e)
  have small: "length (activityHistory m) < 9" using Cons.prems by simp
  note step = checkForPatterns_short [OF small, of toNumber c a]
  have "length (activityHistory (checkForPatterns toNumber c a m)) + length es < 10"
    using step Cons.prems by simp
  from Cons.IH [OF this] step show ?case by (simp add: e)
qed

lemma feed_snoc:
  "feed toNumber (es @ [(c, a)]) m = checkForPatterns toNumber c a (feed toNumber es m)"
  by (induction es arbitrary: m) auto

text \<open>
  Claim C2, as the code has it. \<^verbatim>\<open>detectPatterns\<close> returns at once while the history
  holds fewer than 10 activities, so from an empty history and an empty store fewer than
  10 activities of any kind, three mouse clicks among them, leave the store empty and
  emit nothing. On a \<^verbatim>\<open>checkForPatterns\<close> call made while no suggestion keyed
  \<open>(repeated_sequence, mouse_click)\<close> is stored, the detector emits exactly one such
  suggestion when the history then holds at least 10 activities and at least 3 of its
  last 20 are mouse clicks, and none otherwise. That suggestion has detector type
  \<open>repeated_sequence\<close>, key \<open>mouse_click\<close> and confidence 0.6.
\<close>

theorem repeated_clicks_threshold:
  "(length es < 10 \<longrightarrow>
      suggestions (feed toNumber es (initial_manager\<lparr>tasks := ts\<rparr>)) = [] \<and>
      emitted (feed toNumber es (initial_manager\<lparr>tasks := ts\<rparr>)) = []) \<and>
   (length (activityHistory m) < 10 \<longrightarrow> detectPatterns c m = m) \<and>
   (\<not> hasExistingSuggestion m ''repeated_sequence'' ''mouse_click'' \<longrightarrow>
      filter isClickSuggestion (emitted (checkForPatterns toNumber c a m)) =
        filter isClickSuggestion (emitted m) @
          (if 10 \<le> length (slice_last 1000 (activityHistory m @ [a])) \<and>
              3 \<le> length (clicksOf (slice_last 1000 (activityHistory m @ [a])))
           then [SuggestionEvent (clickSuggestion c (slice_last 1000 (activityHistory m @ [a])))]
           else [])) \<and>
   dedupKey (clickSuggestion c h) = (''repeated_sequence'', ''mouse_click'') \<and>
   sug_confidence (clickSuggestion c h) = 0.6"
proof -
  have "suggestions (feed toNumber es (initial_manager\<lparr>tasks := ts\<rparr>)) = [] \<and>
        emitted (feed toNumber es (initial_manager\<lparr>tasks := ts\<rparr>)) = []"
    if "length es < 10"
    using that feed_short [of "initial_manager\<lparr>tasks := ts\<rparr>" es toNumber]
    by (simp add: initial_manager_def)
  moreover have "detectPatterns c m = m" if "length (activityHistory m) < 10"
    using that by (simp add: detectPatterns_def)
  moreover have "dedupKey (clickSuggestion c h) = (''repeated_sequence'', ''mouse_click'')"
    "sug_confidence (clickSuggestion c h) = 0.6"
    by (simp_all add: clickSuggestion_def new_suggestion_def dedupKey_def)
  ultimately show ?thesis
    using checkForPatterns_click [of m toNumber c a] by blast
qed


theorem three_clicks_counterexample:
  "suggestions
     (feed decimalNumber
        [(half_past_nine, click_at 100 200), (half_past_nine, click_at 100 200),
         (half_past_nine, click_at 100 200)] initial_manager) = [] \<and>
   emitted
     (feed decimalNumber
        [(half_past_nine, click_at 100 200), (half_past_nine, click_at 100 200),
         (half_past_nine, click_at 100 200)] initial_manager) = []"
  by (simp add: checkForPatterns_def detectPatterns_def initial_manager_def
      historyMaxLength_def Let_def)

theorem repeated_clicks_threshold_witness:
  "suggestions (feed decimalNumber (keys_then_clicks 0 3) (initial_manager\<lparr>tasks := []\<rparr>)) = [] \<and>
   emitted (feed decimalNumber (keys_then_clicks 0 3) (initial_manager\<lparr>tasks := []\<rparr>)) = [] \<and>
   filter isClickSuggestion
     (emitted (feed decimalNumber (keys_then_clicks 7 3) (initial_manager\<lparr>tasks := []\<rparr>))) =
     [SuggestionEvent (clickSuggestion half_past_nine (map snd (keys_then_clicks 7 3)))] \<and>
   clicksOf (map snd (keys_then_clicks 7 3)) = replicate 3 (click_at 100 200) \<and>
   filter isClickSuggestion
     (emitted (feed decimalNumber (keys_then_clicks 8 2) (initial_manager\<lparr>tasks := []\<rparr>))) = []"
proof -
  let ?init = "initial_manager\<lparr>tasks := []\<rparr>"
  have types: "atype (special_key ''F5'' (Date 9 30)) = ''keyboard''"
    "atype (click_at 100 200) = ''mouse_click''"
    by (simp_all add: special_key_def click_at_def blank_activity_def)
  have clicks: "clicksOf (map snd (keys_then_clicks k n)) = replicate n (click_at 100 200)"
    if "k + n \<le> 20" for k n
    using that by (simp add: clicksOf_def slice_last_def keys_then_clicks_def types)
  have split: "keys_then_clicks k (Suc n) = keys_then_clicks k n @ [(half_past_nine, click_at 100 200)]"
    for k n
    by (simp add: keys_then_clicks_def replicate_append_same)
  have before: "suggestions (feed decimalNumber (keys_then_clicks k n) ?init) = [] \<and>
                emitted (feed decimalNumber (keys_then_clicks k n) ?init) = []"
    if "k + n < 10" for k n
    using that repeated_clicks_threshold [of "keys_then_clicks k n" decimalNumber "[]"]
    by (simp add: keys_then_clicks_def)
  have hist: "activityHistory (feed decimalNumber (keys_then_clicks k n) ?init) =
                map snd (keys_then_clicks k n)" if "k + n \<le> 1000" for k n
    using that feed_history [of ?init decimalNumber "keys_then_clicks k n"]
    by (simp add: initial_manager_def slice_last_def keys_then_clicks_def)
  have last: "filter isClickSuggestion
                (emitted (feed decimalNumber (keys_then_clicks k n) ?init)) =
              (if 3 \<le> n
               then [SuggestionEvent (clickSuggestion half_past_nine
                       (map snd (keys_then_clicks k n)))]
               else [])" if kn: "k + n = 10" and pos: "0 < n" for k n
  proof -
    obtain n' where n: "n = Suc n'" using pos by (cases n) auto
    define m where "m = feed decimalNumber (keys_then_clicks k n') ?init"
    have empty: "suggestions m = []" "emitted m = []"
      using before [of k n'] kn n by (simp_all add: m_def)
    then have none: "\<not> hasExistingSuggestion m ''repeated_sequence'' ''mouse_click''"
      by (simp add: hasExistingSuggestion_def)
    have h: "slice_last 1000 (activityHistory m @ [click_at 100 200]) =
               map snd (keys_then_clicks k n)"
      using hist [of k n'] kn n
      by (simp add: m_def slice_last_def keys_then_clicks_def replicate_append_same)
    have len: "length (map snd (keys_then_clicks k n)) = 10"
      using kn by (simp add: keys_then_clicks_def)
    have fed: "feed decimalNumber (keys_then_clicks k n) ?init =
                 checkForPatterns decimalNumber half_past_nine (click_at 100 200) m"
      by (simp add: n split feed_snoc m_def)
    show ?thesis
      using none empty len kn pos
        repeated_clicks_threshold [of _ decimalNumber _ m half_past_nine "click_at 100 200"]
        clicks [of k n]
      unfolding fed h by simp
  qed
  show ?thesis
    using before [of 0 3] last [of 7 3] last [of 8 2] clicks [of 7 3]
    by simp
qed

section \<open>The application-sequence detector\<close>

lemma remdups_snoc: "remdups (xs @ [z]) = filter (\<lambda>y. y \<noteq> z) (remdups xs) @ [z]"
  by (induction xs) auto

lemma recent_first_Cons:
  "rev (remdups (rev (z # zs))) = z # rev (remdups (rev (filter (\<lambda>y. y \<noteq> z) zs)))"
  by (simp add: remdups_snoc remdups_filter rev_filter)

lemma collectRecentApps_eq:
  "collectRecentApps xs acc =
     (if length acc < 3
      then take 3 (acc @ rev (remdups (rev (filter (\<lambda>n. n \<notin> set acc)
             (concat (map (\<lambda>a. case appName a of None \<Rightarrow> []
                       | Some n \<Rightarrow> if n \<noteq> [] then [n] else []) xs))))))
      else acc)"
proof (induction xs arbitrary: acc)
  case Nil
  then show ?case by simp
next
  case (Cons a older)
  define nm where
    "nm = concat (map (\<lambda>a. case appName a of None \<Rightarrow> []
                       | Some n \<Rightarrow> if n \<noteq> [] then [n] else []) older)"
  show ?case
  proof (cases "length acc < 3")
    case False
    then show ?thesis by simp
  next
    case short: True
    show ?thesis
    proof (cases "appName a")
      case None
      then show ?thesis using short by (simp add: Cons.IH)
    next
      case (Some n)
      show ?thesis
      proof (cases "n \<noteq> [] \<and> n \<notin> set acc")
        case False
        then show ?thesis using short Some by (auto simp: Cons.IH)
      next
        case True
        have flt: "filter (\<lambda>y. y \<noteq> n) (filter (\<lambda>n. n \<notin> set acc) nm) =
                   filter (\<lambda>x. x \<notin> set (acc @ [n])) nm"
          by (induction nm) auto
        have step: "collectRecentApps (a # older) acc = collectRecentApps older (acc @ [n])"
          using short Some True by simp
        have ih: "collectRecentApps older (acc @ [n]) =
                    (if length acc < 2
                     then take 3 ((acc @ [n]) @
                            rev (remdups (rev (filter (\<lambda>x. x \<notin> set (acc @ [n])) nm))))
                     else acc @ [n])"
          unfolding nm_def using Cons.IH [of "acc @ [n]"] by auto
        have names: "filter (\<lambda>n. n \<notin> set acc)
               (concat (map (\<lambda>a. case appName a of None \<Rightarrow> []
                       | Some n \<Rightarrow> if n \<noteq> [] then [n] else []) (a # older))) =
               n # filter (\<lambda>n. n \<notin> set acc) nm"
          using Some True by (simp add: nm_def)
        have target: "take 3 (acc @ rev (remdups (rev (n # filter (\<lambda>n. n \<notin> set acc) nm)))) =
                      take 3 ((acc @ [n]) @
                            rev (remdups (rev (filter (\<lambda>x. x \<notin> set (acc @ [n])) nm))))"
          by (simp only: recent_first_Cons flt append_assoc append_Cons append_Nil)
        have full: "take 3 ((acc @ [n]) @ ys) = acc @ [n]" if "\<not> length acc < 2" for ys
        proof -
          from that short have "length (acc @ [n]) = 3" by simp
          then show ?thesis by (metis append_eq_conv_conj)
        qed
        show ?thesis
          unfolding step ih names
          using short target full by (simp only: if_True split: if_split) auto
      qed
    qed
  qed
qed

lemma concat_rev_short:
  "(\<And>x. length (f x) \<le> 1) \<Longrightarrow> concat (map f (rev xs)) = rev (concat (map f xs))"
proof (induction xs)
  case Nil
  then show ?case by simp
next
  case (Cons x xs)
  have "rev (f x) = f x"
    using Cons.prems [of x] by (cases "f x") auto
  with Cons show ?case by simp
qed

lemma collectRecentApps_spec:
  "collectRecentApps (rev (filter isAppActivity h)) [] = lastThreeDistinctApps h"
proof -
  have "concat (map (\<lambda>a. case appName a of None \<Rightarrow> []
                       | Some n \<Rightarrow> if n \<noteq> [] then [n] else []) (rev (filter isAppActivity h)))
        = rev (appNames h)"
    unfolding appNames_def by (rule concat_rev_short) (simp split: option.splits)
  then show ?thesis
    by (simp add: collectRecentApps_eq lastThreeDistinctApps_def)
qed

lemma length_appNames: "length (appNames h) \<le> length (filter isAppActivity h)"
proof -
  have "length (concat (map (\<lambda>a. case appName a of None \<Rightarrow> []
                       | Some n \<Rightarrow> if n \<noteq> [] then [n] else []) xs)) \<le> length xs" for xs
    by (induction xs) (auto split: option.splits)
  then show ?thesis by (simp add: appNames_def)
qed

lemma length_lastThree:
  "length (lastThreeDistinctApps h) = 3 \<longleftrightarrow> 3 \<le> card (set (appNames h))"
  by (auto simp: lastThreeDistinctApps_def length_remdups_card_conv min_def)

lemma few_apps: "length (filter isAppActivity h) < 3 \<Longrightarrow> \<not> 3 \<le> card (set (appNames h))"
proof -
  assume "length (filter isAppActivity h) < 3"
  moreover have "card (set (appNames h)) \<le> length (appNames h)"
    by (rule card_length)
  ultimately show ?thesis using length_appNames [of h] by linarith
qed

text \<open>
  Claim C7, as the code has it. The names collected by the backward loop are the last
  three distinct application names of the history, the most recent first. The detector
  stores and emits one suggestion, keyed \<open>app_sequence\<close> and those names joined by
  commas, with confidence 0.65, exactly when the history carries at least three distinct
  application names and no stored suggestion has that key already; otherwise it changes
  nothing. A suggestion that is created is emitted once. \<^verbatim>\<open>detectPatterns\<close> runs the
  detector, after the repeated-type detector, only on a history of at least 10
  activities, and changes nothing on a shorter one.
\<close>

theorem application_sequence_detector:
  "detectApplicationPatterns c m =
     (if 3 \<le> card (set (appNames (activityHistory m))) \<and>
         \<not> hasExistingSuggestion m ''app_sequence''
             (js_join '','' (lastThreeDistinctApps (activityHistory m)))
      then createSuggestion c
             \<lparr>d_title = ''Application Sequence'',
              d_description = ''You often open '' @
                js_join '', '' (lastThreeDistinctApps (activityHistory m)) @
                '' together. Create a workflow?'',
              d_confidence = 0.65,
              d_activities = slice_last 5 (filter isAppActivity (activityHistory m)),
              d_type = ''app_sequence'',
              d_subtype = js_join '','' (lastThreeDistinctApps (activityHistory m))\<rparr> m
      else m) \<and>
   emitted (createSuggestion c d m) = emitted m @ [SuggestionEvent (new_suggestion c d)] \<and>
   (length (activityHistory m) < 10 \<longrightarrow> detectPatterns c m = m) \<and>
   (10 \<le> length (activityHistory m) \<longrightarrow>
      detectPatterns c m = detectApplicationPatterns c (detectRepeatedSequence c m))"
proof -
  have "detectApplicationPatterns c m = m" if "length (filter isAppActivity (activityHistory m)) < 3"
    using that by (simp add: detectApplicationPatterns_def)
  then show ?thesis
    using few_apps [of "activityHistory m"] length_lastThree [of "activityHistory m"]
    by (cases "length (filter isAppActivity (activityHistory m)) < 3")
       (simp_all add: detectApplicationPatterns_def Let_def collectRecentApps_spec
          detectPatterns_def detectTimeBasedPatterns_def createSuggestion_def)
qed

theorem application_sequence_counterexample:
  "card (set (appNames three_apps)) = 3 \<and>
   suggestions (detectPatterns half_past_nine
      (initial_manager\<lparr>activityHistory := three_apps\<rparr>)) = [] \<and>
   emitted (detectPatterns half_past_nine
      (initial_manager\<lparr>activityHistory := three_apps\<rparr>)) = [] \<and>
   emitted (detectApplicationPatterns half_past_nine
      (detectApplicationPatterns half_past_nine
         (initial_manager\<lparr>activityHistory := three_apps\<rparr>))) =
     emitted (detectApplicationPatterns half_past_nine
         (initial_manager\<lparr>activityHistory := three_apps\<rparr>))"
  by (simp add: appNames_def three_apps_def application_opened_def blank_activity_def
      isAppActivity_def appName_def detectPatterns_def initial_manager_def
      detectApplicationPatterns_def createSuggestion_def new_suggestion_def
      hasExistingSuggestion_def slice_last_def Let_def)

theorem application_sequence_witness:
  "length (activityHistory (initial_manager\<lparr>activityHistory := three_apps\<rparr>)) < 10 \<and>
   detectPatterns half_past_nine (initial_manager\<lparr>activityHistory := three_apps\<rparr>) =
     initial_manager\<lparr>activityHistory := three_apps\<rparr> \<and>
   lastThreeDistinctApps three_apps = [''C'', ''B'', ''A''] \<and>
   map dedupKey (suggestions (detectApplicationPatterns half_past_nine
      (initial_manager\<lparr>activityHistory := three_apps\<rparr>))) = [(''app_sequence'', ''C,B,A'')] \<and>
   map sug_confidence (suggestions (detectApplicationPatterns half_past_nine
      (initial_manager\<lparr>activityHistory := three_apps\<rparr>))) = [0.65]"
proof -
  have names: "appNames three_apps = [''A'', ''B'', ''C'']"
    by (simp add: appNames_def three_apps_def application_opened_def blank_activity_def
      isAppActivity_def appName_def)
  have len: "length (activityHistory (initial_manager\<lparr>activityHistory := three_apps\<rparr>)) < 10"
    by (simp add: three_apps_def)
  have last3: "lastThreeDistinctApps three_apps = [''C'', ''B'', ''A'']"
    by (simp add: lastThreeDistinctApps_def names)
  have crd: "card (set (appNames three_apps)) = 3"
    by (simp add: names)
  show ?thesis
    using len last3 crd
      application_sequence_detector [of half_past_nine
        "initial_manager\<lparr>activityHistory := three_apps\<rparr>"]
    by (simp add: initial_manager_def hasExistingSuggestion_def createSuggestion_def
        new_suggestion_def dedupKey_def Let_def)
qed

section \<open>Trigger matching\<close>

lemma triggerLoop_eq:
  "triggerLoop toNumber now a t trs =
     (if list_ex (shouldTrigger toNumber now a) trs then [task_id t] else [])"
  by (induction trs) simp_all

lemma checkTriggers_filter:
  "checkTriggers toNumber now a ts =
     map task_id (filter (\<lambda>t. isActive t \<and>
        list_ex (shouldTrigger toNumber now a) (task_triggers t)) ts)"
  by (induction ts) (simp_all add: triggerLoop_eq)

lemma checkTriggers_append:
  "checkTriggers toNumber now a (ts @ us) =
     checkTriggers toNumber now a ts @ checkTriggers toNumber now a us"
  by (simp add: checkTriggers_filter)

text \<open>
  Claim C6. For one incoming activity, \<^verbatim>\<open>checkTriggers\<close> calls \<^verbatim>\<open>executeTask\<close> at most
  once for a task: once when the task is active and at least one of its triggers
  matches, however many do, and not at all otherwise, so never for an inactive task.
  The calls for a list of tasks are the calls for its parts, one after the other: each
  task is decided on its own, and every active task with a matching trigger fires.
\<close>

theorem trigger_short_circuit:
  "length (checkTriggers toNumber now a [t]) \<le> 1 \<and>
   checkTriggers toNumber now a [t] =
     (if isActive t \<and> list_ex (shouldTrigger toNumber now a) (task_triggers t)
      then [task_id t] else []) \<and>
   checkTriggers toNumber now a (ts @ us) =
     checkTriggers toNumber now a ts @ checkTriggers toNumber now a us \<and>
   checkTriggers toNumber now a ts =
     map task_id (filter (\<lambda>t. isActive t \<and>
        list_ex (shouldTrigger toNumber now a) (task_triggers t)) ts)"
  using checkTriggers_append [of toNumber now a ts us] checkTriggers_filter [of toNumber now a ts]
  by (simp add: checkTriggers_filter)

theorem trigger_short_circuit_witness:
  "checkTriggers decimalNumber (Date 9 30) (special_key ''F5'' (Date 9 30))
     [new_task 1 ''reload''
        [\<lparr>trig_type = ''keyboard'', trig_value = ''F5''\<rparr>,
         \<lparr>trig_type = ''keyboard'', trig_value = ''F5''\<rparr>],
      new_task 2 ''refresh''
        [\<lparr>trig_type = ''click'', trig_value = ''10,10,50,50''\<rparr>,
         \<lparr>trig_type = ''keyboard'', trig_value = ''F5''\<rparr>],
      (new_task 3 ''disabled'' [\<lparr>trig_type = ''keyboard'', trig_value = ''F5''\<rparr>])
        \<lparr>isActive := False\<rparr>] = [1, 2]"
  using trigger_short_circuit [where toNumber = decimalNumber and now = "Date 9 30"
     and a = "special_key ''F5'' (Date 9 30)" and ts =
     "[new_task 1 ''reload''
        [\<lparr>trig_type = ''keyboard'', trig_value = ''F5''\<rparr>,
         \<lparr>trig_type = ''keyboard'', trig_value = ''F5''\<rparr>],
      new_task 2 ''refresh''
        [\<lparr>trig_type = ''click'', trig_value = ''10,10,50,50''\<rparr>,
         \<lparr>trig_type = ''keyboard'', trig_value = ''F5''\<rparr>],
      (new_task 3 ''disabled'' [\<lparr>trig_type = ''keyboard'', trig_value = ''F5''\<rparr>])
        \<lparr>isActive := False\<rparr>]"]
  by (simp add: shouldTrigger_def special_key_def blank_activity_def new_task_def)

text \<open>
  The server's \<^verbatim>\<open>checkTriggers\<close> applies the same test per task, skipping inactive tasks,
  and hands back the first task that passes it; it executes nothing itself.
\<close>

lemma firstMatching_find:
  "firstMatching toNumber a ts =
     find (\<lambda>t. isActive t \<and> list_ex (activityMatchesTrigger toNumber a) (task_triggers t)) ts"
  by (induction ts) simp_all

text \<open>
  The server's matcher holds a time trigger to the activity: it matches exactly the
  \<open>system\<close> activities that carry a timestamp whose hour and minute are the trigger's.
\<close>

lemma server_time_trigger:
  "trig_type tr = ''time'' \<Longrightarrow>
   activityMatchesTrigger toNumber a tr \<longleftrightarrow>
     atype a = ''system'' \<and>
     (\<exists>d. atimestamp a = Some d \<and>
          js_eq (getHours d) (elem (parseNumbers toNumber CHR '':'' (trig_value tr)) 0) \<and>
          js_eq (getMinutes d) (elem (parseNumbers toNumber CHR '':'' (trig_value tr)) 1))"
  by (auto simp: activityMatchesTrigger_def Let_def split: option.splits)

text \<open>
  On the client the outcome of a time trigger does not depend on the activity at all:
  only the clock at the time of the call is compared with the trigger.
\<close>

lemma client_time_trigger_any_event:
  "trig_type tr = ''time'' \<Longrightarrow>
   shouldTrigger toNumber now a tr = shouldTrigger toNumber now a' tr"
  by (simp add: shouldTrigger_def)

text \<open>
  Claim C3 asks that a time trigger match only a \<open>system\<close> activity whose timestamp reads
  the trigger's hour and minute, and no activity of another kind. The client's
  \<^verbatim>\<open>checkTriggers\<close> does otherwise: at 09:30 by the clock, a keyboard activity without a
  timestamp makes it execute the task whose trigger is the time 09:30. The server's
  \<^verbatim>\<open>activityMatchesTrigger\<close> rejects the same activity for the same trigger.
\<close>

theorem client_time_trigger_ignores_event:
  "checkTriggers decimalNumber (Date 9 30) (blank_activity\<lparr>atype := ''keyboard''\<rparr>)
     [new_task 1 ''morning'' [\<lparr>trig_type = ''time'', trig_value = ''09:30''\<rparr>]] = [1] \<and>
   activityMatchesTrigger decimalNumber (blank_activity\<lparr>atype := ''keyboard''\<rparr>)
     \<lparr>trig_type = ''time'', trig_value = ''09:30''\<rparr> = False"
  by (simp add: shouldTrigger_def activityMatchesTrigger_def blank_activity_def new_task_def
      parseNumbers_def decimalNumber_def elem_def js_eq_def)

theorem client_time_trigger_witness:
  "length (checkTriggers decimalNumber (Date 9 30) (blank_activity\<lparr>atype := ''keyboard''\<rparr>)
     [new_task 1 ''morning'' [\<lparr>trig_type = ''time'', trig_value = ''09:30''\<rparr>]]) = 1 \<and>
   \<not> activityMatchesTrigger decimalNumber (blank_activity\<lparr>atype := ''keyboard''\<rparr>)
     \<lparr>trig_type = ''time'', trig_value = ''09:30''\<rparr>"
  using client_time_trigger_ignores_event by simp

section \<open>Executing a task\<close>

lemma find_incrementFound:
  "find (\<lambda>t. task_id t = i) ts = Some t \<Longrightarrow>
   find (\<lambda>t. task_id t = i) (incrementFound i ts) =
     Some (t\<lparr>executionCount := executionCount t + 1\<rparr>)"
  by (induction ts) (auto split: if_splits)

lemma map_of_map_set: "map_of (map_set k v xs) k = Some v"
  by (induction xs) auto

lemma executeTask_found:
  assumes "find (\<lambda>t. task_id t = i) (tasks m) = Some t"
  shows "snd (executeTask i resp m) = (resp = ResponseOk)"
    and "find (\<lambda>t. task_id t = i) (tasks (fst (executeTask i resp m))) =
           Some (t\<lparr>executionCount := executionCount t + (if resp = ResponseOk then 1 else 0)\<rparr>)"
    and "\<exists>msg. emitted (fst (executeTask i resp m)) =
           emitted m @ [ExecutionEvent i (resp = ResponseOk) msg]"
  using assms by (cases resp; simp add: executeTask_def find_incrementFound)+

lemma server_executeTask_found:
  assumes "getAutomationTask st i = Some u"
  shows "snd (server_executeTask i c st) = True"
    and "getAutomationTask (fst (server_executeTask i c st)) i =
           Some (u\<lparr>executionCount := executionCount u + 1, lastExecuted := Some (newDate c)\<rparr>)"
  using assms
  by (simp_all add: server_executeTask_def getAutomationTask_def
      updateAutomationTaskExecutionCount_def createActivityLog_def Let_def map_of_map_set)

text \<open>
  Claim C1, as the code has it. \<^verbatim>\<open>executeTask\<close> always returns a boolean. For a known
  task the client returns true exactly when the request succeeded, emits one execution
  result with that flag, and increments \<open>executionCount\<close> by one on success only: after a
  failed request the count is what it was. For an unknown task it returns false and
  changes nothing. On the server a known task has its \<open>executionCount\<close> incremented by one
  and its \<open>lastExecuted\<close> set to the current time, and true is returned; an unknown task
  gives false and an unchanged storage.
\<close>

theorem execute_bookkeeping_on_success:
  "(find (\<lambda>t. task_id t = i) (tasks m) = Some t \<longrightarrow>
      snd (executeTask i resp m) = (resp = ResponseOk) \<and>
      find (\<lambda>t. task_id t = i) (tasks (fst (executeTask i resp m))) =
        Some (t\<lparr>executionCount := executionCount t + (if resp = ResponseOk then 1 else 0)\<rparr>) \<and>
      (\<exists>msg. emitted (fst (executeTask i resp m)) =
         emitted m @ [ExecutionEvent i (resp = ResponseOk) msg])) \<and>
   (find (\<lambda>t. task_id t = i) (tasks m) = None \<longrightarrow> executeTask i resp m = (m, False)) \<and>
   (getAutomationTask st i = Some u \<longrightarrow>
      snd (server_executeTask i c st) = True \<and>
      getAutomationTask (fst (server_executeTask i c st)) i =
        Some (u\<lparr>executionCount := executionCount u + 1, lastExecuted := Some (newDate c)\<rparr>)) \<and>
   (getAutomationTask st i = None \<longrightarrow> server_executeTask i c st = (st, False))"
proof -
  have "executeTask i resp m = (m, False)" if "find (\<lambda>t. task_id t = i) (tasks m) = None"
    using that by (simp add: executeTask_def)
  moreover have "server_executeTask i c st = (st, False)" if "getAutomationTask st i = None"
    using that by (simp add: server_executeTask_def)
  ultimately show ?thesis
    using executeTask_found [of i m t resp] server_executeTask_found [of st i u c] by blast
qed

theorem execute_failure_counterexample:
  "map executionCount (tasks (initial_manager\<lparr>tasks := [new_task 1 ''reload'' []]\<rparr>)) = [0] \<and>
   map executionCount
     (tasks (fst (executeTask 1 ResponseNotOk
        (initial_manager\<lparr>tasks := [new_task 1 ''reload'' []]\<rparr>)))) = [0] \<and>
   snd (executeTask 1 ResponseNotOk (initial_manager\<lparr>tasks := [new_task 1 ''reload'' []]\<rparr>))
     = False"
  by (simp add: executeTask_def initial_manager_def new_task_def)

theorem execute_bookkeeping_witness:
  "find (\<lambda>t. task_id t = 1) (tasks (initial_manager\<lparr>tasks := [new_task 1 ''reload'' []]\<rparr>)) =
     Some (new_task 1 ''reload'' []) \<and>
   snd (executeTask 1 ResponseOk (initial_manager\<lparr>tasks := [new_task 1 ''reload'' []]\<rparr>)) \<and>
   map executionCount
     (tasks (fst (executeTask 1 ResponseOk
        (initial_manager\<lparr>tasks := [new_task 1 ''reload'' []]\<rparr>)))) = [1] \<and>
   find (\<lambda>t. task_id t = 2) (tasks (initial_manager\<lparr>tasks := [new_task 1 ''reload'' []]\<rparr>)) =
     None \<and>
   executeTask 2 ResponseOk (initial_manager\<lparr>tasks := [new_task 1 ''reload'' []]\<rparr>) =
     (initial_manager\<lparr>tasks := [new_task 1 ''reload'' []]\<rparr>, False) \<and>
   getAutomationTask one_task_storage 1 = Some stored_reload \<and>
   snd (server_executeTask 1 half_past_nine one_task_storage) \<and>
   getAutomationTask (fst (server_executeTask 1 half_past_nine one_task_storage)) 1 =
     Some (stored_reload\<lparr>executionCount := 1, lastExecuted := Some (Date 9 30)\<rparr>) \<and>
   getAutomationTask one_task_storage 2 = None \<and>
   server_executeTask 2 half_past_nine one_task_storage = (one_task_storage, False)"
proof -
  have a: "find (\<lambda>t. task_id t = 1) (tasks (initial_manager\<lparr>tasks := [new_task 1 ''reload'' []]\<rparr>)) =
     Some (new_task 1 ''reload'' [])"
    by (simp add: new_task_def)
  have b: "find (\<lambda>t. task_id t = 2) (tasks (initial_manager\<lparr>tasks := [new_task 1 ''reload'' []]\<rparr>)) =
     None"
    by (simp add: new_task_def)
  have c: "getAutomationTask one_task_storage 1 = Some stored_reload"
    by (simp add: getAutomationTask_def one_task_storage_def)
  have d: "getAutomationTask one_task_storage 2 = None"
    by (simp add: getAutomationTask_def one_task_storage_def)
  have e: "executionCount stored_reload = 0" "executionCount (new_task 1 ''reload'' []) = 0"
    by (simp_all add: stored_reload_def new_task_def)
  have f: "map executionCount
     (tasks (fst (executeTask 1 ResponseOk
        (initial_manager\<lparr>tasks := [new_task 1 ''reload'' []]\<rparr>)))) = [1]"
    by (simp add: executeTask_def new_task_def)
  show ?thesis
    using a b c d e f
      execute_bookkeeping_on_success
        [of 1 "initial_manager\<lparr>tasks := [new_task 1 ''reload'' []]\<rparr>" "new_task 1 ''reload'' []"
            ResponseOk one_task_storage stored_reload half_past_nine]
      execute_bookkeeping_on_success
        [of 2 "initial_manager\<lparr>tasks := [new_task 1 ''reload'' []]\<rparr>" _ ResponseOk
            one_task_storage _ half_past_nine]
    by (simp add: half_past_nine_def)
qed

section \<open>Starting and stopping the tracker\<close>

text \<open>
  Claim C9. \<^verbatim>\<open>start()\<close> on a tracker that is tracking returns with the tracker and the
  timers as they were, and \<^verbatim>\<open>stop()\<close> on a stopped tracker likewise; a second call of
  either changes nothing the first call left. Starting a stopped tracker twice, with
  screen capture enabled, leaves the one interval timer of the first call and no other.
\<close>

theorem start_stop_idempotent:
  "(isTracking w \<longrightarrow> start w = w) \<and>
   (\<not> isTracking w \<longrightarrow> stop w = w) \<and>
   start (start w) = start w \<and>
   stop (stop w) = stop w \<and>
   timers (start (start w)) = timers (start w) \<and>
   (\<not> isTracking w \<and> enableScreenCapture (settings w) \<longrightarrow>
      timers (start (start w)) =
        timers w @ [(Suc (timerCount w), captureInterval_ms (settings w))])"
proof -
  have t: "isTracking (start w)"
    by (simp add: start_def Let_def setInterval_def split: prod.splits)
  have s: "\<not> isTracking (stop w)"
    by (simp add: stop_def Let_def clearInterval_def split: option.splits)
  have a: "start (start w) = start w"
    using t by (subst start_def) simp
  have b: "stop (stop w) = stop w"
    using s by (subst stop_def) simp
  have c: "timers (start w) = timers w @ [(Suc (timerCount w), captureInterval_ms (settings w))]"
    if "\<not> isTracking w" "enableScreenCapture (settings w)"
    using that by (simp add: start_def Let_def setInterval_def)
  have d: "start w = w" if "isTracking w"
    using that by (simp add: start_def)
  have e: "stop w = w" if "\<not> isTracking w"
    using that by (simp add: stop_def)
  show ?thesis
    using a b c d e by simp
qed

theorem start_stop_idempotent_witness:
  "\<not> isTracking initial_tracker \<and>
   enableScreenCapture (settings initial_tracker) \<and>
   isTracking (start initial_tracker) \<and>
   start (start initial_tracker) = start initial_tracker \<and>
   timers (start (start initial_tracker)) = [(1, 1000)] \<and>
   stop initial_tracker = initial_tracker \<and>
   timers (stop (stop (start initial_tracker))) = []"
  using start_stop_idempotent [of initial_tracker]
    start_stop_idempotent [of "start initial_tracker"]
  by (simp add: initial_tracker_def start_def stop_def setInterval_def clearInterval_def
      keyboardLogger_start_def keyboardLogger_stop_def flushKeyBuffer_def Let_def)

section \<open>Listeners that throw\<close>

lemma forEach_guarded:
  "\<exists>s'. forEach (\<lambda>cb. try_catch (call cb d) (\<lambda>err. console_error (msg err))) cbs s = Normal s' \<and>
        calls s' = calls s @ cbs \<and>
        world s' = fold (\<lambda>cb w. snd (cb d w)) cbs (world s)"
proof (induction cbs arbitrary: s)
  case Nil
  then show ?case by simp
next
  case (Cons cb cbs)
  obtain s1 where s1: "try_catch (call cb d) (\<lambda>err. console_error (msg err)) s = Normal s1"
    and c1: "calls s1 = calls s @ [cb]" and w1: "world s1 = snd (cb d (world s))"
    by (cases "cb d (world s)"; cases "fst (cb d (world s))")
       (auto simp: try_catch_def call_def console_error_def Let_def)
  from Cons.IH [of s1] obtain s' where
    "forEach (\<lambda>cb. try_catch (call cb d) (\<lambda>err. console_error (msg err))) cbs s1 = Normal s'"
    "calls s' = calls s1 @ cbs" "world s' = fold (\<lambda>cb w. snd (cb d w)) cbs (world s1)"
    by blast
  with s1 c1 w1 show ?case by simp
qed

text \<open>
  Claim C10. \<^verbatim>\<open>notifyListeners\<close> always ends normally: no exception of a listener leaves
  it. The callbacks it has invoked are all the callbacks registered for the event, in
  the order of their registration, whether or not some of them threw, and the world is
  the one that running them all in that order leaves.
\<close>

theorem notifyListeners_isolates_failures:
  "\<exists>s'. notifyListeners listeners event d s = Normal s' \<and>
        calls s' = calls s @ (case listeners event of None \<Rightarrow> [] | Some cbs \<Rightarrow> cbs) \<and>
        world s' = fold (\<lambda>cb w. snd (cb d w))
                     (case listeners event of None \<Rightarrow> [] | Some cbs \<Rightarrow> cbs) (world s)"
proof (cases "listeners event")
  case None
  then show ?thesis by (simp add: notifyListeners_def)
next
  case (Some cbs)
  then show ?thesis
    using forEach_guarded [of d _ cbs s] by (simp add: notifyListeners_def)
qed

theorem notifyListeners_witness:
  \<open>notifyListeners
     [''activity'' \<mapsto> [\<lambda>d w. (Some ''boom'', w), \<lambda>d w. (None, w + d)]]
     ''activity'' (5 :: nat) \<lparr>world = (0 :: nat), console = [], calls = []\<rparr> =
   Normal \<lparr>world = 5,
           console = [''Error in listener for event "activity": boom''],
           calls = [\<lambda>d w. (Some ''boom'', w), \<lambda>d w. (None, w + d)]\<rparr>\<close>
  using notifyListeners_isolates_failures
    [of "[''activity'' \<mapsto> [\<lambda>d w. (Some ''boom'', w), \<lambda>d w. (None, w + d)]]"
        "''activity''" "5 :: nat" "\<lparr>world = (0 :: nat), console = [], calls = []\<rparr>"]
  by (simp add: notifyListeners_def try_catch_def call_def console_error_def)

end
